theory Spec2Isabelle
  imports Main
begin

section \<open>The connection hub (\<open>ClientManager\<close>, internal/websocket/websocket.go)\<close>

text \<open>
  A \<open>*Client\<close> is identified by its address; the hub only ever touches the \<open>send\<close>
  channel of a client (\<open>make(chan []byte, 256)\<close>). A buffered Go channel is its buffer and
  its closed flag. The three ways the hub uses a channel are written out with the three
  things Go can do: complete, block the sending goroutine, or panic.
\<close>

type_synonym client_ref = nat
type_synonym bytes = string

record chan =
  buf :: "bytes list"
  closed :: bool

datatype 'a outcome = Done 'a | Blocks | Panics

definition chan_cap :: nat where
  "chan_cap = 256"

definition make_chan :: chan where
  "make_chan = \<lparr>buf = [], closed = False\<rparr>"

definition chan_send :: "chan \<Rightarrow> bytes \<Rightarrow> chan outcome" where
  \<comment> \<open>\<open>ch <- v\<close>: panics on a closed channel, blocks while the buffer is full.\<close>
  "chan_send ch v =
     (if closed ch then Panics
      else if length (buf ch) < chan_cap then Done (ch\<lparr>buf := buf ch @ [v]\<rparr>)
      else Blocks)"

definition chan_try_send :: "chan \<Rightarrow> bytes \<Rightarrow> chan option outcome" where
  \<comment> \<open>\<open>select { case ch <- v: default: }\<close>: \<open>None\<close> is the default branch.\<close>
  "chan_try_send ch v =
     (if closed ch then Panics
      else if length (buf ch) < chan_cap then Done (Some (ch\<lparr>buf := buf ch @ [v]\<rparr>))
      else Done None)"

definition chan_close :: "chan \<Rightarrow> chan outcome" where
  \<comment> \<open>\<open>close(ch)\<close>: closing a closed channel panics.\<close>
  "chan_close ch = (if closed ch then Panics else Done (ch\<lparr>closed := True\<rparr>))"

text \<open>
  \<open>clients map[*Client]bool\<close> is an association list with Go's map operations: an
  assignment overwrites the entry of a key that is present and adds one otherwise, a
  delete removes every entry of the key. \<open>send_of\<close> is the heap: the \<open>send\<close> channel of
  every client object.
\<close>

fun map_assign :: "'k \<Rightarrow> 'v \<Rightarrow> ('k \<times> 'v) list \<Rightarrow> ('k \<times> 'v) list" where
  "map_assign k v [] = [(k, v)]"
| "map_assign k v ((k', v') # kvs) =
     (if k' = k then (k, v) # kvs else (k', v') # map_assign k v kvs)"

definition map_delete :: "'k \<Rightarrow> ('k \<times> 'v) list \<Rightarrow> ('k \<times> 'v) list" where
  "map_delete k kvs = filter (\<lambda>kv. fst kv \<noteq> k) kvs"

definition map_keys :: "('k \<times> 'v) list \<Rightarrow> 'k list" where
  "map_keys kvs = map fst kvs"

definition map_has :: "('k \<times> 'v) list \<Rightarrow> 'k \<Rightarrow> bool" where
  \<comment> \<open>\<open>_, ok := m[k]\<close>\<close>
  "map_has kvs k = (k \<in> set (map_keys kvs))"

record ClientManager =
  clients :: "(client_ref \<times> bool) list"
  send_of :: "client_ref \<Rightarrow> chan"

definition new_manager :: ClientManager where
  "new_manager = \<lparr>clients = [], send_of = (\<lambda>c. make_chan)\<rparr>"

definition welcome_message :: bytes where
  "welcome_message = ''Welcome to the Server!''"

definition hub_register :: "ClientManager \<Rightarrow> client_ref \<Rightarrow> ClientManager outcome" where
  \<comment> \<open>\<open>case client := <-manager.register\<close>\<close>
  "hub_register m c =
     (let m1 = m\<lparr>clients := map_assign c True (clients m)\<rparr>
      in case chan_send (send_of m1 c) welcome_message of
           Done ch \<Rightarrow> Done (m1\<lparr>send_of := (send_of m1)(c := ch)\<rparr>)
         | Blocks \<Rightarrow> Blocks
         | Panics \<Rightarrow> Panics)"

definition hub_unregister :: "ClientManager \<Rightarrow> client_ref \<Rightarrow> ClientManager outcome" where
  \<comment> \<open>\<open>case client := <-manager.unregister\<close>\<close>
  "hub_unregister m c =
     (if map_has (clients m) c then
        (let m1 = m\<lparr>clients := map_delete c (clients m)\<rparr>
         in case chan_close (send_of m1 c) of
              Done ch \<Rightarrow> Done (m1\<lparr>send_of := (send_of m1)(c := ch)\<rparr>)
            | Blocks \<Rightarrow> Blocks
            | Panics \<Rightarrow> Panics)
      else Done m)"

definition broadcast_one :: "bytes \<Rightarrow> ClientManager \<Rightarrow> client_ref \<Rightarrow> ClientManager outcome" where
  \<comment> \<open>the body of \<open>for client := range manager.clients\<close>\<close>
  "broadcast_one message m c =
     (case chan_try_send (send_of m c) message of
        Done (Some ch) \<Rightarrow> Done (m\<lparr>send_of := (send_of m)(c := ch)\<rparr>)
      | Done None \<Rightarrow>
          (case chan_close (send_of m c) of
             Done ch \<Rightarrow>
               Done (m\<lparr>send_of := (send_of m)(c := ch), clients := map_delete c (clients m)\<rparr>)
           | Blocks \<Rightarrow> Blocks
           | Panics \<Rightarrow> Panics)
      | Blocks \<Rightarrow> Blocks
      | Panics \<Rightarrow> Panics)"

fun broadcast_loop :: "bytes \<Rightarrow> client_ref list \<Rightarrow> ClientManager \<Rightarrow> ClientManager outcome" where
  "broadcast_loop message [] m = Done m"
| "broadcast_loop message (c # cs) m =
     (case broadcast_one message m c of
        Done m' \<Rightarrow> broadcast_loop message cs m'
      | Blocks \<Rightarrow> Blocks
      | Panics \<Rightarrow> Panics)"

definition hub_broadcast :: "ClientManager \<Rightarrow> bytes \<Rightarrow> ClientManager outcome" where
  \<comment> \<open>\<open>case message := <-manager.broadcast\<close>: the range visits every key of the map once;
      deleting the key being visited is allowed in Go and does not disturb the others.\<close>
  "hub_broadcast m message = broadcast_loop message (map_keys (clients m)) m"

text \<open>
  The hub's loop takes one request at a time. Between two requests the pumps of a session
  work on its channel: the write pump receives (\<open>message, ok := <-c.send\<close>), the read
  pump's handlers send replies (\<open>client.send <- responseJSON\<close>). A pump that blocks leaves
  the state as it is; a send on a closed channel panics, which ends the process.
\<close>

datatype request =
    Register client_ref
  | Unregister client_ref
  | Broadcast bytes
  | PumpRecv client_ref
  | PumpSend client_ref bytes

definition pump_recv :: "ClientManager \<Rightarrow> client_ref \<Rightarrow> ClientManager outcome" where
  "pump_recv m c =
     (case buf (send_of m c) of
        [] \<Rightarrow> Done m
      | v # vs \<Rightarrow> Done (m\<lparr>send_of := (send_of m)(c := (send_of m c)\<lparr>buf := vs\<rparr>)\<rparr>))"

definition pump_send :: "ClientManager \<Rightarrow> client_ref \<Rightarrow> bytes \<Rightarrow> ClientManager outcome" where
  "pump_send m c v =
     (case chan_send (send_of m c) v of
        Done ch \<Rightarrow> Done (m\<lparr>send_of := (send_of m)(c := ch)\<rparr>)
      | Blocks \<Rightarrow> Done m
      | Panics \<Rightarrow> Panics)"

fun hub_step :: "ClientManager \<Rightarrow> request \<Rightarrow> ClientManager outcome" where
  "hub_step m (Register c) = hub_register m c"
| "hub_step m (Unregister c) = hub_unregister m c"
| "hub_step m (Broadcast message) = hub_broadcast m message"
| "hub_step m (PumpRecv c) = pump_recv m c"
| "hub_step m (PumpSend c v) = pump_send m c v"

fun run :: "ClientManager \<Rightarrow> request list \<Rightarrow> ClientManager outcome" where
  "run m [] = Done m"
| "run m (r # rs) =
     (case hub_step m r of
        Done m' \<Rightarrow> run m' rs
      | Blocks \<Rightarrow> Blocks
      | Panics \<Rightarrow> Panics)"

definition hub_inv :: "ClientManager \<Rightarrow> bool" where
  "hub_inv m = (distinct (map_keys (clients m)) \<and>
                list_all (\<lambda>c. \<not> closed (send_of m c)) (map_keys (clients m)))"


section \<open>JSON values as \<open>encoding/json\<close> decodes them\<close>

text \<open>
  A frame is a text. \<open>json.Unmarshal\<close> first checks that the text is well-formed JSON and
  changes nothing when it is not; a well-formed text is the JSON value it denotes, objects
  keeping their members in the order of the text (a key may occur more than once). A
  \<open>json.RawMessage\<close> is \<open>None\<close> while it is empty and the JSON value it holds otherwise.

  Decoding into a struct takes the members of an object one after the other. A key selects
  the field whose name equals it when letter case is ignored (ASCII letters, and the two
  other code points, U+212A and U+017F, that fold to \<open>k\<close> and \<open>s\<close>). For a \<open>string\<close> field a
  JSON string is stored, \<open>null\<close> is skipped, and any other value is a type error: the field
  keeps what it has, decoding goes on with the next member, and \<open>Unmarshal\<close> returns the
  error at the end.
\<close>

datatype json =
    JNull
  | JBool bool
  | JNum string
  | JStr string
  | JArr "json list"
  | JObj "(string \<times> json) list"

datatype frame = NotJSON string | JSON json

definition char_in :: "char \<Rightarrow> char \<Rightarrow> char \<Rightarrow> bool" where
  "char_in lo hi c = ((of_char lo :: nat) \<le> of_char c \<and> (of_char c :: nat) \<le> of_char hi)"

definition lower :: "char \<Rightarrow> char" where
  "lower c = (if char_in (CHR ''A'') (CHR ''Z'') c then char_of ((of_char c :: nat) + 32) else c)"

fun fold_key :: "string \<Rightarrow> string" where
  "fold_key (a # b # c # r) =
     (if a = CHR 0xE2 \<and> b = CHR 0x84 \<and> c = CHR 0xAA then CHR ''k'' # fold_key r
      else if a = CHR 0xC5 \<and> b = CHR 0xBF then CHR ''s'' # fold_key (c # r)
      else lower a # fold_key (b # c # r))"
| "fold_key [a, b] =
     (if a = CHR 0xC5 \<and> b = CHR 0xBF then [CHR ''s''] else [lower a, lower b])"
| "fold_key [a] = [lower a]"
| "fold_key [] = []"

definition key_selects :: "string \<Rightarrow> string \<Rightarrow> bool" where
  \<comment> \<open>the field names of this program are lower-case ASCII\<close>
  "key_selects field key = (fold_key key = field)"

fun storeString :: "string \<times> bool \<Rightarrow> json \<Rightarrow> string \<times> bool" where
  "storeString (cur, e) (JStr s) = (s, e)"
| "storeString (cur, e) JNull = (cur, e)"
| "storeString (cur, e) v = (cur, True)"

definition stringField :: "string \<Rightarrow> (string \<times> json) list \<Rightarrow> string \<times> bool" where
  \<comment> \<open>the final value of a \<open>string\<close> field that starts empty, and whether a member
      selecting it had the wrong type\<close>
  "stringField field kvs =
     foldl storeString ([], False) (map snd (filter (\<lambda>kv. key_selects field (fst kv)) kvs))"

definition rawField :: "string \<Rightarrow> (string \<times> json) list \<Rightarrow> json option" where
  \<comment> \<open>a \<open>json.RawMessage\<close> field takes any value, \<open>null\<close> included; the last member wins\<close>
  "rawField field kvs =
     (case filter (\<lambda>kv. key_selects field (fst kv)) kvs of
        [] \<Rightarrow> None
      | kv # rest \<Rightarrow> Some (snd (last (kv # rest))))"

record Message =
  Type :: string
  Payload :: "json option"

definition zero_Message :: Message where
  "zero_Message = \<lparr>Type = [], Payload = None\<rparr>"

definition unmarshal_Message :: "frame \<Rightarrow> bool \<times> Message" where
  \<comment> \<open>\<open>json.Unmarshal([]byte(message_string), &message)\<close>: whether it returns an error, and
      \<open>message\<close> afterwards\<close>
  "unmarshal_Message f =
     (case f of
        NotJSON txt \<Rightarrow> (True, zero_Message)
      | JSON JNull \<Rightarrow> (False, zero_Message)
      | JSON (JObj kvs) \<Rightarrow>
          (snd (stringField ''type'' kvs),
           \<lparr>Type = fst (stringField ''type'' kvs), Payload = rawField ''payload'' kvs\<rparr>)
      | JSON v \<Rightarrow> (True, zero_Message))"

record credentials =
  cred_username :: string
  cred_password :: string

definition zero_credentials :: credentials where
  "zero_credentials = \<lparr>cred_username = [], cred_password = []\<rparr>"

definition unmarshal_credentials :: "json option \<Rightarrow> bool \<times> credentials" where
  "unmarshal_credentials raw =
     (case raw of
        None \<Rightarrow> (True, zero_credentials)
      | Some JNull \<Rightarrow> (False, zero_credentials)
      | Some (JObj kvs) \<Rightarrow>
          (snd (stringField ''username'' kvs) \<or> snd (stringField ''password'' kvs),
           \<lparr>cred_username = fst (stringField ''username'' kvs),
            cred_password = fst (stringField ''password'' kvs)\<rparr>)
      | Some v \<Rightarrow> (True, zero_credentials))"

definition unmarshal_tokenAuth :: "json option \<Rightarrow> bool \<times> string" where
  \<comment> \<open>the struct has the one field \<open>Token\<close>\<close>
  "unmarshal_tokenAuth raw =
     (case raw of
        None \<Rightarrow> (True, [])
      | Some JNull \<Rightarrow> (False, [])
      | Some (JObj kvs) \<Rightarrow> (snd (stringField ''token'' kvs), fst (stringField ''token'' kvs))
      | Some v \<Rightarrow> (True, []))"

record registration =
  reg_username :: string
  reg_password :: string
  reg_email :: string

definition zero_registration :: registration where
  "zero_registration = \<lparr>reg_username = [], reg_password = [], reg_email = []\<rparr>"

definition unmarshal_registration :: "json option \<Rightarrow> bool \<times> registration" where
  "unmarshal_registration raw =
     (case raw of
        None \<Rightarrow> (True, zero_registration)
      | Some JNull \<Rightarrow> (False, zero_registration)
      | Some (JObj kvs) \<Rightarrow>
          (snd (stringField ''username'' kvs) \<or> snd (stringField ''password'' kvs)
             \<or> snd (stringField ''email'' kvs),
           \<lparr>reg_username = fst (stringField ''username'' kvs),
            reg_password = fst (stringField ''password'' kvs),
            reg_email = fst (stringField ''email'' kvs)\<rparr>)
      | Some v \<Rightarrow> (True, zero_registration))"

section \<open>\<open>util.IsValidEmail\<close> (internal/util/util.go)\<close>

text \<open>
  The pattern is \<^verbatim>\<open>^[A-z0-9._%+-]+@[a-z0-9.-]+\.[a-z]{2,}$\<close>. A matcher maps a text to
  the rests that can remain after it has matched a prefix; the pattern matches when the
  empty rest is among them. The range \<open>A-z\<close> is the bytes 65 to 122, so it holds the six
  characters between \<open>Z\<close> and \<open>a\<close> too.
\<close>

type_synonym matcher = "string \<Rightarrow> string list"

definition one_of :: "(char \<Rightarrow> bool) \<Rightarrow> matcher" where
  "one_of p s = (case s of [] \<Rightarrow> [] | c # r \<Rightarrow> if p c then [r] else [])"

fun star_of :: "(char \<Rightarrow> bool) \<Rightarrow> matcher" where
  "star_of p [] = [[]]"
| "star_of p (c # r) = (c # r) # (if p c then star_of p r else [])"

definition and_then :: "matcher \<Rightarrow> matcher \<Rightarrow> matcher" where
  "and_then m1 m2 s = concat (map m2 (m1 s))"

definition plus_of :: "(char \<Rightarrow> bool) \<Rightarrow> matcher" where
  "plus_of p = and_then (one_of p) (star_of p)"

definition local_char :: "char \<Rightarrow> bool" where
  \<comment> \<open>\<^verbatim>\<open>[A-z0-9._%+-]\<close>\<close>
  "local_char c = (char_in (CHR ''A'') (CHR ''z'') c \<or> char_in (CHR ''0'') (CHR ''9'') c
                   \<or> c \<in> set ''._%+-'')"

definition domain_char :: "char \<Rightarrow> bool" where
  \<comment> \<open>\<^verbatim>\<open>[a-z0-9.-]\<close>\<close>
  "domain_char c = (char_in (CHR ''a'') (CHR ''z'') c \<or> char_in (CHR ''0'') (CHR ''9'') c
                    \<or> c \<in> set ''.-'')"

definition tld_char :: "char \<Rightarrow> bool" where
  \<comment> \<open>\<^verbatim>\<open>[a-z]\<close>\<close>
  "tld_char c = char_in (CHR ''a'') (CHR ''z'') c"

definition emailRegex :: matcher where
  "emailRegex =
     and_then (plus_of local_char)
    (and_then (one_of (\<lambda>c. c = CHR ''@''))
    (and_then (plus_of domain_char)
    (and_then (one_of (\<lambda>c. c = CHR ''.''))
    (and_then (one_of tld_char)
    (and_then (one_of tld_char) (star_of tld_char))))))"

definition IsValidEmail :: "string \<Rightarrow> bool" where
  "IsValidEmail email = ([] \<in> set (emailRegex email))"


section \<open>The persistence store (tables of \<open>SetupDatabase\<close>)\<close>

text \<open>
  The two tables are lists of rows with the columns of their \<open>CREATE TABLE\<close>; a nullable
  column is an option. Time is a count of seconds, and \<open>INTERVAL '7 days'\<close> is
  \<open>seven_days\<close> of them. A statement is issued under a five second deadline and may fail
  for reasons outside the tables (\<open>faults\<close>); a statement that fails changes nothing. An
  insert also fails when it breaks a constraint of the schema: a \<open>VARCHAR\<close> length
  (counted here in bytes), a \<open>UNIQUE\<close> column, the primary key, the foreign key.
  \<open>SERIAL\<close> takes the next value of the table's sequence.
\<close>

type_synonym time = int

definition seven_days :: int where
  "seven_days = 7 * 24 * 60 * 60"

record user_row =
  u_id :: nat
  u_username :: string
  u_password_hash :: string
  u_email :: "string option"
  u_created_at :: time
  u_last_login :: "time option"

record token_row =
  t_id :: nat
  t_user_id :: "nat option"
  t_token :: string
  t_ip_address :: "string option"
  t_created_at :: time
  t_expires_at :: time
  t_last_used_at :: "time option"
  t_is_revoked :: bool

record database =
  users :: "user_row list"
  auth_tokens :: "token_row list"
  users_id_seq :: nat
  auth_tokens_id_seq :: nat

datatype dbcall =
    SelectUsernameExists
  | SelectEmailExists
  | InsertUser
  | SelectUserId
  | InsertToken
  | SelectToken
  | UpdateToken
  | SelectCredentials

text \<open>
  What a handler takes from outside the program while it runs: the clock of the store at
  each statement (\<open>NOW()\<close>), which statements fail, the value of \<open>uuid.New().String()\<close>,
  and the two functions of \<open>bcrypt\<close> (\<open>GenerateFromPassword\<close> at cost 12, \<open>None\<close> when it
  returns an error, and \<open>CompareHashAndPassword\<close>).
\<close>

record env =
  clock :: "dbcall \<Rightarrow> time"
  faults :: "dbcall \<Rightarrow> bool"
  new_uuid :: string
  bcrypt_generate :: "string \<Rightarrow> string option"
  bcrypt_matches :: "string \<Rightarrow> string \<Rightarrow> bool"

definition select_username_exists :: "env \<Rightarrow> database \<Rightarrow> string \<Rightarrow> bool option" where
  \<comment> \<open>\<^verbatim>\<open>SELECT EXISTS(SELECT 1 FROM users WHERE username = $1)\<close>\<close>
  "select_username_exists e d uname =
     (if faults e SelectUsernameExists then None
      else Some (list_ex (\<lambda>u. u_username u = uname) (users d)))"

definition select_email_exists :: "env \<Rightarrow> database \<Rightarrow> string \<Rightarrow> bool option" where
  \<comment> \<open>\<^verbatim>\<open>SELECT EXISTS(SELECT 1 FROM users WHERE email = $1)\<close>\<close>
  "select_email_exists e d email =
     (if faults e SelectEmailExists then None
      else Some (list_ex (\<lambda>u. u_email u = Some email) (users d)))"

definition insert_user :: "env \<Rightarrow> database \<Rightarrow> string \<Rightarrow> string \<Rightarrow> string \<Rightarrow> database option" where
  \<comment> \<open>\<^verbatim>\<open>INSERT INTO users (username, password_hash, email) VALUES ($1, $2, $3)\<close>: the
      third parameter is a Go string, so the email column is never \<open>NULL\<close>\<close>
  "insert_user e d uname hash email =
     (if faults e InsertUser then None
      else if 50 < length uname \<or> 255 < length hash \<or> 255 < length email then None
      else if list_ex (\<lambda>u. u_id u = users_id_seq d + 1) (users d) then None
      else if list_ex (\<lambda>u. u_username u = uname) (users d) then None
      else if list_ex (\<lambda>u. u_email u = Some email) (users d) then None
      else Some (d\<lparr>users := users d @
                     [\<lparr>u_id = users_id_seq d + 1, u_username = uname, u_password_hash = hash,
                       u_email = Some email, u_created_at = clock e InsertUser,
                       u_last_login = None\<rparr>],
                   users_id_seq := users_id_seq d + 1\<rparr>))"

definition select_user_id :: "env \<Rightarrow> database \<Rightarrow> string \<Rightarrow> nat option" where
  \<comment> \<open>\<^verbatim>\<open>SELECT id FROM users WHERE username = $1\<close>; no row is an error of \<open>Scan\<close> too\<close>
  "select_user_id e d uname =
     (if faults e SelectUserId then None
      else case filter (\<lambda>u. u_username u = uname) (users d) of
             [] \<Rightarrow> None
           | u # rest \<Rightarrow> Some (u_id u))"

definition insert_token :: "env \<Rightarrow> database \<Rightarrow> nat \<Rightarrow> string \<Rightarrow> string \<Rightarrow> database option" where
  \<comment> \<open>\<^verbatim>\<open>INSERT INTO auth_tokens (user_id, token, ip_address, created_at, expires_at)
      VALUES ($1, $2, $3, NOW(), NOW() + INTERVAL '7 days')\<close>\<close>
  "insert_token e d uid tok ip =
     (if faults e InsertToken then None
      else if 255 < length tok \<or> 50 < length ip then None
      else if list_ex (\<lambda>t. t_id t = auth_tokens_id_seq d + 1) (auth_tokens d) then None
      else if list_ex (\<lambda>t. t_token t = tok) (auth_tokens d) then None
      else if \<not> list_ex (\<lambda>u. u_id u = uid) (users d) then None
      else Some (d\<lparr>auth_tokens := auth_tokens d @
                     [\<lparr>t_id = auth_tokens_id_seq d + 1, t_user_id = Some uid, t_token = tok,
                       t_ip_address = Some ip, t_created_at = clock e InsertToken,
                       t_expires_at = clock e InsertToken + seven_days,
                       t_last_used_at = None, t_is_revoked = False\<rparr>],
                   auth_tokens_id_seq := auth_tokens_id_seq d + 1\<rparr>))"

datatype pgerror = ErrNoRows | ErrDatabase

definition token_join :: "time \<Rightarrow> database \<Rightarrow> string \<Rightarrow> (token_row \<times> user_row) list" where
  \<comment> \<open>\<^verbatim>\<open>FROM auth_tokens t JOIN users u ON t.user_id = u.id
      WHERE t.token = $1 AND t.expires_at > NOW()\<close>\<close>
  "token_join now d tok =
     concat (map (\<lambda>t. map (\<lambda>u. (t, u)) (filter (\<lambda>u. t_user_id t = Some (u_id u)) (users d)))
                 (filter (\<lambda>t. t_token t = tok \<and> now < t_expires_at t) (auth_tokens d)))"

definition select_token ::
  "env \<Rightarrow> database \<Rightarrow> string \<Rightarrow> pgerror + (nat \<times> string \<times> string option)" where
  \<comment> \<open>\<open>QueryRow(...).Scan(&tokenID, &username, &storedIP)\<close>: the first row of the result\<close>
  "select_token e d tok =
     (if faults e SelectToken then Inl ErrDatabase
      else case token_join (clock e SelectToken) d tok of
             [] \<Rightarrow> Inl ErrNoRows
           | (t, u) # rest \<Rightarrow> Inr (t_id t, u_username u, t_ip_address t))"

definition update_token :: "env \<Rightarrow> database \<Rightarrow> string \<Rightarrow> nat \<Rightarrow> database option" where
  \<comment> \<open>\<^verbatim>\<open>UPDATE auth_tokens SET last_used_at = NOW(), ip_address = $1 WHERE id = $2\<close>\<close>
  "update_token e d ip tid =
     (if faults e UpdateToken then None
      else if 50 < length ip \<and> list_ex (\<lambda>t. t_id t = tid) (auth_tokens d) then None
      else Some (d\<lparr>auth_tokens :=
                     map (\<lambda>t. if t_id t = tid
                               then t\<lparr>t_last_used_at := Some (clock e UpdateToken),
                                      t_ip_address := Some ip\<rparr>
                               else t)
                         (auth_tokens d)\<rparr>))"

section \<open>A session and its handlers (internal/websocket/websocket.go)\<close>

text \<open>
  Of a \<open>Client\<close> the handlers read and write the fields below; \<open>conn_ip\<close> is what
  \<open>getClientIP\<close> makes of \<open>conn.RemoteAddr()\<close>, fixed for the life of the connection. A
  handler runs in the read pump of its client, on the store that all sessions share.

  \<open>sent\<close> collects, in order, what the handler pushes on \<open>client.send\<close>: the JSON value
  that \<open>json.Marshal\<close> writes (it writes the keys of a Go map in sorted order). The push
  is a channel send as in the hub's section: here it is taken to complete. \<open>logged\<close>
  collects the log lines, each with its message or format and its string arguments (an
  error printed with \<open>%v\<close> and the text of a frame are left out), and \<open>issued\<close> the
  statements sent to the store.

  \<open>validateToken\<close> tells a lookup that found no row from one that failed by comparing
  the error with \<open>pgx.ErrNoRows\<close>; the model takes the comparison to hold for a lookup
  without a row. Both callers answer the two returns alike.
\<close>

record Client =
  client_id :: string
  conn_ip :: string
  username :: string
  authenticated :: bool
  authToken :: string

definition new_Client :: "string \<Rightarrow> string \<Rightarrow> Client" where
  \<comment> \<open>\<open>&Client{id: r.RemoteAddr, ...}\<close> in \<open>handleWebSocketConnection\<close>: the other fields
      have their zero values\<close>
  "new_Client addr ip =
     \<lparr>client_id = addr, conn_ip = ip, username = [], authenticated = False, authToken = []\<rparr>"

datatype log_entry =
    LogFields string "(string \<times> string) list"
  | LogPrintf string "string list"

record world =
  client :: Client
  db :: database
  sent :: "json list"
  logged :: "log_entry list"
  issued :: "dbcall list"

definition logs :: "log_entry \<Rightarrow> world \<Rightarrow> world" where
  "logs l w = w\<lparr>logged := logged w @ [l]\<rparr>"

definition issue :: "dbcall \<Rightarrow> world \<Rightarrow> world" where
  "issue c w = w\<lparr>issued := issued w @ [c]\<rparr>"

definition push :: "json \<Rightarrow> world \<Rightarrow> world" where
  \<comment> \<open>\<open>client.send <- responseJSON\<close>\<close>
  "push j w = w\<lparr>sent := sent w @ [j]\<rparr>"

definition getClientIP :: "world \<Rightarrow> string" where
  "getClientIP w = conn_ip (client w)"

definition error_envelope :: "string \<Rightarrow> string \<Rightarrow> json" where
  "error_envelope category message =
     JObj [(''payload'', JObj [(''message'', JStr message), (''subtype'', JStr category)]),
           (''type'', JStr ''error'')]"

definition sendError :: "string \<Rightarrow> string \<Rightarrow> world \<Rightarrow> world" where
  "sendError category message w = push (error_envelope category message) w"

definition sendAuthError :: "string \<Rightarrow> world \<Rightarrow> world" where
  \<comment> \<open>Modelled from the spec: \<open>sendAuthError\<close> is called in websocket.go and defined in no
      file under src/. The spec has one error envelope, \<open>error{subtype, message}\<close>, and
      calls this one a generic authentication error; the subtype is taken to be
      \<open>auth_error\<close>.\<close>
  "sendAuthError message w = sendError ''auth_error'' message w"

definition auth_success_envelope :: "string \<Rightarrow> string \<Rightarrow> json" where
  "auth_success_envelope uname tok =
     JObj [(''payload'', JObj [(''token'', JStr tok), (''username'', JStr uname)]),
           (''type'', JStr ''auth_success'')]"

definition completeAuthentication :: "string \<Rightarrow> string \<Rightarrow> world \<Rightarrow> world" where
  "completeAuthentication uname tok w =
     logs (LogPrintf ''Client authenticated: %s as %s'' [client_id (client w), uname])
      (push (auth_success_envelope uname tok)
        (w\<lparr>client := (client w)\<lparr>authenticated := True, username := uname, authToken := tok\<rparr>\<rparr>))"

definition register_success_envelope :: "bool \<Rightarrow> string \<Rightarrow> string \<Rightarrow> json" where
  \<comment> \<open>\<open>username\<close> and \<open>token\<close> are members of the payload only \<open>if autoLogin\<close>\<close>
  "register_success_envelope autoLogin uname tok =
     JObj [(''payload'',
            JObj ([(''autoLogin'', JBool autoLogin),
                   (''message'', JStr ''Registration successful''),
                   (''success'', JBool True)]
                  @ (if autoLogin then [(''token'', JStr tok), (''username'', JStr uname)]
                     else []))),
           (''type'', JStr ''register_success'')]"

definition sendRegistrationSuccess :: "bool \<Rightarrow> string \<Rightarrow> string \<Rightarrow> world \<Rightarrow> world" where
  "sendRegistrationSuccess autoLogin uname tok w =
     push (register_success_envelope autoLogin uname tok) w"

definition validateToken :: "env \<Rightarrow> string \<Rightarrow> string \<Rightarrow> world \<Rightarrow> (string \<times> bool \<times> pgerror option) \<times> world" where
  "validateToken e tok clientIP w =
     (case select_token e (db w) tok of
        Inl ErrNoRows \<Rightarrow> (([], False, None), issue SelectToken w)
      | Inl ErrDatabase \<Rightarrow> (([], False, Some ErrDatabase), issue SelectToken w)
      | Inr (tokenID, uname, storedIP) \<Rightarrow>
          (let w1 = issue SelectToken w;
               w2 = (case storedIP of
                       None \<Rightarrow> w1
                     | Some stored \<Rightarrow>
                         if stored \<noteq> [] \<and> stored \<noteq> clientIP
                         then logs (LogPrintf
                                ''Warning: Token used from new IP. Original: %s, Current: %s''
                                [stored, clientIP]) w1
                         else w1);
               w3 = issue UpdateToken w2
           in case update_token e (db w3) clientIP tokenID of
                None \<Rightarrow> ((uname, True, None),
                          logs (LogPrintf ''Error updating token usage: %v'' []) w3)
              | Some d' \<Rightarrow> ((uname, True, None), w3\<lparr>db := d'\<rparr>)))"

definition validateCredentials :: "env \<Rightarrow> string \<Rightarrow> string \<Rightarrow> world \<Rightarrow> (bool \<times> string \<times> pgerror option) \<times> world" where
  \<comment> \<open>Modelled from the spec: \<open>validateCredentials\<close> is called in websocket.go and defined
      in no file under src/. The spec: verify the password against the stored hash; on
      mismatch or lookup failure there is no authentication; on match a new opaque token is
      issued and persisted, bound to the user id, the client IP and an expiry of now + 7
      days. A token that cannot be persisted is returned as an error.\<close>
  "validateCredentials e uname password w =
     (let w1 = issue SelectCredentials w
      in if faults e SelectCredentials then ((False, [], Some ErrDatabase), w1)
         else case filter (\<lambda>u. u_username u = uname) (users (db w1)) of
                [] \<Rightarrow> ((False, [], None), w1)
              | u # rest \<Rightarrow>
                  if \<not> bcrypt_matches e (u_password_hash u) password then ((False, [], None), w1)
                  else (let w2 = issue InsertToken w1
                        in case insert_token e (db w2) (u_id u) (new_uuid e) (getClientIP w2) of
                             None \<Rightarrow> ((False, [], Some ErrDatabase), w2)
                           | Some d' \<Rightarrow> ((True, new_uuid e, None), w2\<lparr>db := d'\<rparr>)))"

definition handleAuthentication :: "env \<Rightarrow> Message \<Rightarrow> world \<Rightarrow> world" where
  "handleAuthentication e msg w =
     (if Type msg = ''login'' then
        (case unmarshal_credentials (Payload msg) of
           (True, creds) \<Rightarrow>
             sendError [] ''Invalid login format''
               (logs (LogPrintf ''Error parsing login credentials: %v'' []) w)
         | (False, creds) \<Rightarrow>
             (case validateCredentials e (cred_username creds) (cred_password creds) w of
                ((ok, tok, err), w1) \<Rightarrow>
                  if err \<noteq> None \<or> \<not> ok then sendAuthError ''Invalid username or password'' w1
                  else completeAuthentication (cred_username creds) tok w1))
      else if Type msg = ''token_auth'' then
        (case unmarshal_tokenAuth (Payload msg) of
           (True, tok) \<Rightarrow>
             sendAuthError ''Invalid token format''
               (logs (LogPrintf ''Error parsing token auth: %v'' []) w)
         | (False, tok) \<Rightarrow>
             (case validateToken e tok (getClientIP w) w of
                ((uname, valid, err), w1) \<Rightarrow>
                  if err \<noteq> None \<or> \<not> valid then sendAuthError ''Invalid or expired token'' w1
                  else completeAuthentication uname tok w1))
      else w)"

definition server_error :: "string \<Rightarrow> world \<Rightarrow> world" where
  \<comment> \<open>the pair \<open>log.Printf(...)\<close>, \<open>client.sendError("registration_error", "Registration
      failed due to a server error")\<close> that follows every failing step\<close>
  "server_error fmt w =
     sendError ''registration_error'' ''Registration failed due to a server error''
       (logs (LogPrintf fmt []) w)"

definition registration_token :: "env \<Rightarrow> registration \<Rightarrow> world \<Rightarrow> world" where
  \<comment> \<open>\<open>handleRegistration\<close> from \<open>token := uuid.New().String()\<close> to its end\<close>
  "registration_token e r w =
     (let tok = new_uuid e;
          w1 = issue SelectUserId w
      in case select_user_id e (db w1) (reg_username r) of
           None \<Rightarrow>
             sendRegistrationSuccess False [] []
               (logs (LogPrintf ''Error retrieving new user ID: %v'' []) w1)
         | Some userID \<Rightarrow>
             (let clientIP = getClientIP w1;
                  w2 = issue InsertToken w1
              in case insert_token e (db w2) userID tok clientIP of
                   None \<Rightarrow>
                     sendRegistrationSuccess False [] []
                       (logs (LogPrintf ''Error creating token for new user: %v'' []) w2)
                 | Some d' \<Rightarrow>
                     logs (LogPrintf ''New user registered and authenticated: %s''
                             [reg_username r])
                       (sendRegistrationSuccess True (reg_username r) tok
                          (w2\<lparr>db := d',
                              client := (client w2)\<lparr>username := reg_username r,
                                                    authenticated := True,
                                                    authToken := tok\<rparr>\<rparr>))))"

definition registration_insert :: "env \<Rightarrow> registration \<Rightarrow> world \<Rightarrow> world" where
  \<comment> \<open>\<open>handleRegistration\<close> from \<open>bcrypt.GenerateFromPassword\<close> on\<close>
  "registration_insert e r w =
     (case bcrypt_generate e (reg_password r) of
        None \<Rightarrow> server_error ''Error hashing password: %v'' w
      | Some passwordHash \<Rightarrow>
          (let w1 = issue InsertUser w
           in case insert_user e (db w1) (reg_username r) passwordHash (reg_email r) of
                None \<Rightarrow> server_error ''Error inserting new user: %v'' w1
              | Some d' \<Rightarrow> registration_token e r (w1\<lparr>db := d'\<rparr>)))"

definition registration_checks :: "env \<Rightarrow> registration \<Rightarrow> world \<Rightarrow> world" where
  \<comment> \<open>\<open>handleRegistration\<close> from \<open>// Check if username already exists\<close> on\<close>
  "registration_checks e r w =
     (let w1 = issue SelectUsernameExists w
      in case select_username_exists e (db w1) (reg_username r) of
           None \<Rightarrow> server_error ''Database error during registration: %v'' w1
         | Some True \<Rightarrow> sendError ''registration_error'' ''Username already exists'' w1
         | Some False \<Rightarrow>
             if reg_email r \<noteq> [] then
               (let w2 = issue SelectEmailExists w1
                in case select_email_exists e (db w2) (reg_email r) of
                     None \<Rightarrow> server_error ''Database error during registration: %v'' w2
                   | Some True \<Rightarrow>
                       sendError ''registration_error'' ''Email already registered'' w2
                   | Some False \<Rightarrow> registration_insert e r w2)
             else registration_insert e r w1)"

definition handleRegistration :: "env \<Rightarrow> Message \<Rightarrow> world \<Rightarrow> world" where
  "handleRegistration e msg w =
     (case unmarshal_registration (Payload msg) of
        (True, r) \<Rightarrow>
          sendError ''registration_error'' ''Invalid registration format''
            (logs (LogPrintf ''Error parsing registration data: %v'' []) w)
      | (False, r) \<Rightarrow>
          if length (reg_username r) < 3 then
            sendError ''registration_error'' ''Username must be at least 3 characters'' w
          else if length (reg_password r) < 6 then
            sendError ''registration_error'' ''Password must be at least 6 characters'' w
          else if reg_email r \<noteq> [] \<and> \<not> IsValidEmail (reg_email r) then
            sendError ''registration_error'' ''Invalid email format'' w
          else registration_checks e r w)"

definition handlePacket :: "env \<Rightarrow> frame \<Rightarrow> world \<Rightarrow> world" where
  \<comment> \<open>the \<open>token_auth\<close> case declares \<open>tokenAuth\<close> and never decodes the payload into it:
      \<open>tokenAuth.Token\<close> is the empty string where it is read\<close>
  "handlePacket e f w =
     (case unmarshal_Message f of
        (err, message) \<Rightarrow>
          (let w0 = (if err
                     then logs (LogFields ''Received String as Message''
                                  [(''client_id'', client_id (client w))]) w
                     else w)
           in if Type message = ''login'' then handleAuthentication e message w0
              else if Type message = ''register'' then handleRegistration e message w0
              else if Type message = ''token_auth'' then
                (let tokenAuth_Token = [];
                     clientIP = getClientIP w0
                 in case validateToken e tokenAuth_Token clientIP w0 of
                      ((uname, valid, verr), w1) \<Rightarrow>
                        if verr \<noteq> None \<or> \<not> valid
                        then sendError ''token_error'' ''Invalid or expired token'' w1
                        else completeAuthentication uname tokenAuth_Token w1)
              else w0))"

fun readPump :: "(env \<times> frame) list \<Rightarrow> world \<Rightarrow> world" where
  \<comment> \<open>the loop of \<open>readPump\<close> over the frames the connection delivers, each with what
      the outside gives while it is handled\<close>
  "readPump [] w = w"
| "readPump ((e, f) # rest) w = readPump rest (handlePacket e f w)"

definition connect :: "string \<Rightarrow> string \<Rightarrow> database \<Rightarrow> world" where
  \<comment> \<open>\<open>handleWebSocketConnection\<close>: a new client on the store as it is\<close>
  "connect addr ip d =
     \<lparr>client = new_Client addr ip, db = d, sent = [], logged = [], issued = []\<rparr>"

section \<open>The examples of the spec\<close>

definition empty_db :: database where
  "empty_db = \<lparr>users = [], auth_tokens = [], users_id_seq = 0, auth_tokens_id_seq = 0\<rparr>"

definition alice_token :: string where
  "alice_token = ''123e4567-e89b-12d3-a456-426614174000''"

definition env0 :: env where
  \<comment> \<open>the store works, its clock reads 1000, and \<open>bcrypt\<close> is a stand-in\<close>
  "env0 = \<lparr>clock = (\<lambda>c. 1000), faults = (\<lambda>c. False),
           new_uuid = alice_token,
           bcrypt_generate = (\<lambda>p. Some (''$2a$12$'' @ p)),
           bcrypt_matches = (\<lambda>h p. h = ''$2a$12$'' @ p)\<rparr>"

definition envelope :: "string \<Rightarrow> json \<Rightarrow> frame" where
  \<comment> \<open>the text \<^verbatim>\<open>{"type": t, "payload": p}\<close>\<close>
  "envelope t p = JSON (JObj [(''type'', JStr t), (''payload'', p)])"

definition register_alice :: frame where
  "register_alice =
     envelope ''register''
       (JObj [(''username'', JStr ''alice''), (''password'', JStr ''secretpw''),
              (''email'', JStr [])])"

definition alice_db :: database where
  \<comment> \<open>the store after \<open>register_alice\<close> on a first connection from 10.0.0.1\<close>
  "alice_db = db (handlePacket env0 register_alice (connect ''10.0.0.1:5000'' ''10.0.0.1'' empty_db))"

section \<open>The hub keeps its registry and its channels consistent\<close>

text \<open>
  Every state the hub reaches has each client once in the registry, and the channel of a
  registered client is open: the hub closes a channel only while it removes its client.
\<close>

lemma map_keys_assign:
  "map_keys (map_assign k v kvs) =
     (if k \<in> set (map_keys kvs) then map_keys kvs else map_keys kvs @ [k])"
  by (induction kvs) (force simp: map_keys_def)+

lemma map_keys_delete: "map_keys (map_delete k kvs) = filter (\<lambda>x. x \<noteq> k) (map_keys kvs)"
  by (induction kvs) (auto simp: map_keys_def map_delete_def)

lemma distinct_assign: "distinct (map_keys kvs) \<Longrightarrow> distinct (map_keys (map_assign k v kvs))"
  by (simp add: map_keys_assign)

lemma distinct_delete: "distinct (map_keys kvs) \<Longrightarrow> distinct (map_keys (map_delete k kvs))"
  by (simp add: map_keys_delete)

lemma hub_inv_new: "hub_inv new_manager"
  by (simp add: hub_inv_def new_manager_def map_keys_def)

lemma hub_inv_register: "hub_inv m \<Longrightarrow> hub_register m c = Done m' \<Longrightarrow> hub_inv m'"
  by (auto simp: hub_inv_def hub_register_def Let_def chan_send_def map_keys_assign list_all_iff
      split: outcome.splits if_splits)

lemma hub_inv_unregister: "hub_inv m \<Longrightarrow> hub_unregister m c = Done m' \<Longrightarrow> hub_inv m'"
  by (auto simp: hub_inv_def hub_unregister_def Let_def chan_close_def map_keys_delete list_all_iff
      split: outcome.splits if_splits)

lemma hub_inv_broadcast_one: "hub_inv m \<Longrightarrow> broadcast_one msg m c = Done m' \<Longrightarrow> hub_inv m'"
  by (auto simp: hub_inv_def broadcast_one_def chan_try_send_def chan_close_def map_keys_delete list_all_iff
      split: outcome.splits if_splits option.splits)

lemma hub_inv_broadcast_loop: "hub_inv m \<Longrightarrow> broadcast_loop msg cs m = Done m' \<Longrightarrow> hub_inv m'"
proof (induction cs arbitrary: m)
  case Nil
  then show ?case by simp
next
  case (Cons c cs)
  then show ?case
    by (auto split: outcome.splits dest: hub_inv_broadcast_one)
qed

lemma hub_inv_pump_recv: "hub_inv m \<Longrightarrow> pump_recv m c = Done m' \<Longrightarrow> hub_inv m'"
  by (auto simp: hub_inv_def pump_recv_def list_all_iff split: list.splits if_splits)

lemma hub_inv_pump_send: "hub_inv m \<Longrightarrow> pump_send m c v = Done m' \<Longrightarrow> hub_inv m'"
  by (auto simp: hub_inv_def pump_send_def chan_send_def list_all_iff split: outcome.splits if_splits)

lemma hub_inv_step: "hub_inv m \<Longrightarrow> hub_step m r = Done m' \<Longrightarrow> hub_inv m'"
  by (cases r)
     (auto simp: hub_broadcast_def
           dest: hub_inv_register hub_inv_unregister hub_inv_broadcast_loop hub_inv_pump_recv hub_inv_pump_send)

lemma hub_inv_run: "hub_inv m \<Longrightarrow> run m rs = Done m' \<Longrightarrow> hub_inv m'"
proof (induction rs arbitrary: m)
  case Nil
  then show ?case by simp
next
  case (Cons r rs)
  then show ?case
    by (auto split: outcome.splits dest: hub_inv_step)
qed

lemma broadcast_one_keys:
  "broadcast_one msg m c = Done m' \<Longrightarrow> set (map_keys (clients m')) \<subseteq> set (map_keys (clients m))"
  by (auto simp: broadcast_one_def chan_try_send_def chan_close_def map_keys_delete
      split: outcome.splits if_splits option.splits)

lemma broadcast_one_other:
  "broadcast_one msg m c = Done m' \<Longrightarrow> c' \<noteq> c \<Longrightarrow> send_of m' c' = send_of m c'"
  by (auto simp: broadcast_one_def chan_try_send_def chan_close_def
      split: outcome.splits if_splits option.splits)

lemma broadcast_loop_keys:
  "broadcast_loop msg cs m = Done m' \<Longrightarrow> set (map_keys (clients m')) \<subseteq> set (map_keys (clients m))"
proof (induction cs arbitrary: m)
  case Nil
  then show ?case by simp
next
  case (Cons c cs)
  then obtain m1 where 1: "broadcast_one msg m c = Done m1" and 2: "broadcast_loop msg cs m1 = Done m'"
    by (auto split: outcome.splits)
  from Cons.IH[OF 2] broadcast_one_keys[OF 1] show ?case by blast
qed

lemma broadcast_loop_other:
  "broadcast_loop msg cs m = Done m' \<Longrightarrow> c' \<notin> set cs \<Longrightarrow> send_of m' c' = send_of m c'"
proof (induction cs arbitrary: m)
  case Nil
  then show ?case by simp
next
  case (Cons c cs)
  then obtain m1 where 1: "broadcast_one msg m c = Done m1" and 2: "broadcast_loop msg cs m1 = Done m'"
    by (auto split: outcome.splits)
  from Cons.prems have "c' \<noteq> c" "c' \<notin> set cs" by auto
  with Cons.IH[OF 2] broadcast_one_other[OF 1] show ?case by simp
qed

lemma broadcast_one_effect:
  assumes "\<not> closed (send_of m c)"
  shows "broadcast_one msg m c =
     Done (m\<lparr>send_of := (send_of m)
               (c := if length (buf (send_of m c)) < chan_cap
                     then (send_of m c)\<lparr>buf := buf (send_of m c) @ [msg]\<rparr>
                     else (send_of m c)\<lparr>closed := True\<rparr>),
             clients := (if length (buf (send_of m c)) < chan_cap then clients m
                         else map_delete c (clients m))\<rparr>)"
  using assms
  by (simp add: broadcast_one_def chan_try_send_def chan_close_def)

lemma broadcast_loop_effect:
  assumes "distinct cs" and "\<forall>c\<in>set cs. \<not> closed (send_of m c)"
  shows "\<exists>m'. broadcast_loop msg cs m = Done m' \<and>
           (\<forall>c. send_of m' c =
                  (if c \<in> set cs
                   then if length (buf (send_of m c)) < chan_cap
                        then (send_of m c)\<lparr>buf := buf (send_of m c) @ [msg]\<rparr>
                        else (send_of m c)\<lparr>closed := True\<rparr>
                   else send_of m c)) \<and>
           map_keys (clients m') =
             filter (\<lambda>c. \<not> (c \<in> set cs \<and> \<not> length (buf (send_of m c)) < chan_cap))
                    (map_keys (clients m))"
  using assms
proof (induction cs arbitrary: m)
  case Nil
  then show ?case by simp
next
  case (Cons c cs)
  define m1 where "m1 = m\<lparr>send_of := (send_of m)
               (c := if length (buf (send_of m c)) < chan_cap
                     then (send_of m c)\<lparr>buf := buf (send_of m c) @ [msg]\<rparr>
                     else (send_of m c)\<lparr>closed := True\<rparr>),
             clients := (if length (buf (send_of m c)) < chan_cap then clients m
                         else map_delete c (clients m))\<rparr>"
  have one: "broadcast_one msg m c = Done m1"
    unfolding m1_def using Cons.prems by (intro broadcast_one_effect) simp
  have c_new: "c \<notin> set cs" and d: "distinct cs" using Cons.prems by auto
  have same: "\<And>c'. c' \<in> set cs \<Longrightarrow> send_of m1 c' = send_of m c'"
    using c_new by (auto simp: m1_def)
  have open1: "\<forall>c'\<in>set cs. \<not> closed (send_of m1 c')"
    using Cons.prems same by auto
  from Cons.IH[OF d open1] obtain m' where
    loop: "broadcast_loop msg cs m1 = Done m'" and
    sends: "\<forall>c'. send_of m' c' =
                  (if c' \<in> set cs
                   then if length (buf (send_of m1 c')) < chan_cap
                        then (send_of m1 c')\<lparr>buf := buf (send_of m1 c') @ [msg]\<rparr>
                        else (send_of m1 c')\<lparr>closed := True\<rparr>
                   else send_of m1 c')" and
    keys: "map_keys (clients m') =
             filter (\<lambda>c'. \<not> (c' \<in> set cs \<and> \<not> length (buf (send_of m1 c')) < chan_cap))
                    (map_keys (clients m1))"
    by blast
  have r1: "broadcast_loop msg (c # cs) m = Done m'" using one loop by simp
  have r2: "\<forall>c'. send_of m' c' =
                  (if c' \<in> set (c # cs)
                   then if length (buf (send_of m c')) < chan_cap
                        then (send_of m c')\<lparr>buf := buf (send_of m c') @ [msg]\<rparr>
                        else (send_of m c')\<lparr>closed := True\<rparr>
                   else send_of m c')"
  proof
    fix c'
    show "send_of m' c' =
                  (if c' \<in> set (c # cs)
                   then if length (buf (send_of m c')) < chan_cap
                        then (send_of m c')\<lparr>buf := buf (send_of m c') @ [msg]\<rparr>
                        else (send_of m c')\<lparr>closed := True\<rparr>
                   else send_of m c')"
    proof (cases "c' \<in> set cs")
      case True
      then show ?thesis using sends same by simp
    next
      case False
      then have "send_of m' c' = send_of m1 c'" using sends by simp
      then show ?thesis using False by (simp add: m1_def)
    qed
  qed
  have k1: "map_keys (clients m1) =
       filter (\<lambda>c'. \<not> (c' = c \<and> \<not> length (buf (send_of m c)) < chan_cap)) (map_keys (clients m))"
    by (auto simp: m1_def map_keys_delete intro: filter_cong)
  have r3: "map_keys (clients m') =
             filter (\<lambda>c'. \<not> (c' \<in> set (c # cs) \<and> \<not> length (buf (send_of m c')) < chan_cap))
                    (map_keys (clients m))"
    unfolding keys k1 filter_filter
    by (rule filter_cong) (auto simp: same)
  from r1 r2 r3 show ?case by blast
qed



lemma step_keeps_absent:
  assumes "hub_step m r = Done m'" and "\<not> map_has (clients m) c" and "r \<noteq> Register c"
  shows "\<not> map_has (clients m') c"
  using assms
proof (cases r)
  case (Broadcast msg)
  with assms(1) have "broadcast_loop msg (map_keys (clients m)) m = Done m'"
    by (simp add: hub_broadcast_def)
  from broadcast_loop_keys[OF this] assms(2) show ?thesis by (auto simp: map_has_def)
qed (auto simp: map_has_def hub_register_def hub_unregister_def pump_recv_def pump_send_def
      chan_send_def chan_close_def Let_def map_keys_assign map_keys_delete
      split: outcome.splits if_splits list.splits)

lemma run_keeps_absent:
  "run m rs = Done m' \<Longrightarrow> \<not> map_has (clients m) c \<Longrightarrow> Register c \<notin> set rs \<Longrightarrow> \<not> map_has (clients m') c"
proof (induction rs arbitrary: m)
  case Nil
  then show ?case by simp
next
  case (Cons r rs)
  then obtain m1 where 1: "hub_step m r = Done m1" and 2: "run m1 rs = Done m'"
    by (auto split: outcome.splits)
  from Cons.prems have "r \<noteq> Register c" "Register c \<notin> set rs" by auto
  with step_keeps_absent[OF 1 Cons.prems(2)] Cons.IH[OF 2] show ?case by blast
qed

lemma run_append: "run m (rs @ rs') = (case run m rs of Done m' \<Rightarrow> run m' rs' | Blocks \<Rightarrow> Blocks | Panics \<Rightarrow> Panics)"
  by (induction rs arbitrary: m) (auto split: outcome.splits)

lemma run_broadcasts_one_client:
  assumes "clients m = [(c, True)]" and "\<not> closed (send_of m c)"
    and "length (buf (send_of m c)) + n \<le> chan_cap"
  shows "run m (replicate n (Broadcast x)) =
           Done (m\<lparr>send_of := (send_of m)(c := (send_of m c)\<lparr>buf := buf (send_of m c) @ replicate n x\<rparr>)\<rparr>)"
  using assms
proof (induction n arbitrary: m)
  case 0
  then show ?case by simp
next
  case (Suc n)
  let ?m1 = "m\<lparr>send_of := (send_of m)(c := (send_of m c)\<lparr>buf := buf (send_of m c) @ [x]\<rparr>)\<rparr>"
  have step: "hub_broadcast m x = Done ?m1"
    using Suc.prems
    by (simp add: hub_broadcast_def map_keys_def broadcast_one_def chan_try_send_def)
  have "run ?m1 (replicate n (Broadcast x)) =
          Done (?m1\<lparr>send_of := (send_of ?m1)(c := (send_of ?m1 c)\<lparr>buf := buf (send_of ?m1 c) @ replicate n x\<rparr>)\<rparr>)"
    using Suc.prems by (intro Suc.IH) auto
  then have ih: "run ?m1 (replicate n (Broadcast x)) =
          Done (m\<lparr>send_of := (send_of m)(c := (send_of m c)\<lparr>buf := buf (send_of m c) @ x # replicate n x\<rparr>)\<rparr>)"
    by simp
  have "run m (replicate (Suc n) (Broadcast x)) = run ?m1 (replicate n (Broadcast x))"
    using step by simp
  also note ih
  finally show ?case by (simp add: replicate_app_Cons_same fun_upd_def)
qed

lemma run_fills_first_queue: "run new_manager (Register 1 # replicate 255 (Broadcast ''x'') @ [Register 2]) =
   Done \<lparr>clients = [(1, True), (2, True)],
         send_of = (\<lambda>c. make_chan)
            (1 := \<lparr>buf = welcome_message # replicate 255 ''x'', closed = False\<rparr>,
             2 := \<lparr>buf = [welcome_message], closed = False\<rparr>)\<rparr>"
proof -
  let ?m1 = "\<lparr>clients = [(1::nat, True)], send_of = (\<lambda>c. make_chan)(1 := \<lparr>buf = [welcome_message], closed = False\<rparr>)\<rparr>"
  have a: "hub_register new_manager 1 = Done ?m1"
    by (simp add: hub_register_def new_manager_def make_chan_def chan_send_def chan_cap_def Let_def)
  have b: "run ?m1 (replicate 255 (Broadcast ''x'')) =
      Done (?m1\<lparr>send_of := (send_of ?m1)(1 := (send_of ?m1 1)\<lparr>buf := buf (send_of ?m1 1) @ replicate 255 ''x''\<rparr>)\<rparr>)"
    by (rule run_broadcasts_one_client) (simp_all add: chan_cap_def)
  show ?thesis
    using a b
    by (simp add: run_append hub_register_def chan_send_def chan_cap_def Let_def make_chan_def)
qed

text \<open>
  Claim C2. A broadcast pass, from any state the hub reaches, completes: it neither blocks
  nor panics. Every registered session whose queue has room has the payload appended to
  its queue and stays registered; every registered session whose queue is full is removed
  from the registry and its queue, open until then, is closed, in this same pass; the
  others are left alone. A session that is not registered after the pass, whatever the
  hub and the pumps do next, is reached by no later broadcast as long as it is not
  registered again.
\<close>

theorem broadcast_pass_delivers_or_drops:
  assumes "run new_manager rs = Done m"
  shows "\<exists>m'. hub_broadcast m message = Done m' \<and>
           (\<forall>c. map_has (clients m) c \<longrightarrow>
                (if length (buf (send_of m c)) < chan_cap
                 then map_has (clients m') c \<and>
                      send_of m' c = (send_of m c)\<lparr>buf := buf (send_of m c) @ [message]\<rparr>
                 else \<not> map_has (clients m') c \<and> \<not> closed (send_of m c) \<and>
                      send_of m' c = (send_of m c)\<lparr>closed := True\<rparr>)) \<and>
           (\<forall>c. \<not> map_has (clients m) c \<longrightarrow>
                \<not> map_has (clients m') c \<and> send_of m' c = send_of m c) \<and>
           (\<forall>c rs' m2 message' m3.
                \<not> map_has (clients m') c \<and> Register c \<notin> set rs' \<and> run m' rs' = Done m2 \<and>
                hub_broadcast m2 message' = Done m3 \<longrightarrow>
                \<not> map_has (clients m2) c \<and> send_of m3 c = send_of m2 c)"
proof -
  have inv: "hub_inv m" using hub_inv_run[OF hub_inv_new assms] .
  then have d: "distinct (map_keys (clients m))"
    and op: "\<forall>c\<in>set (map_keys (clients m)). \<not> closed (send_of m c)"
    by (auto simp: hub_inv_def list_all_iff)
  from broadcast_loop_effect[OF d op, of message] obtain m' where
    loop: "broadcast_loop message (map_keys (clients m)) m = Done m'" and
    sends: "\<forall>c. send_of m' c = (if c \<in> set (map_keys (clients m))
                   then if length (buf (send_of m c)) < chan_cap
                        then (send_of m c)\<lparr>buf := buf (send_of m c) @ [message]\<rparr>
                        else (send_of m c)\<lparr>closed := True\<rparr>
                   else send_of m c)" and
    keys: "map_keys (clients m') =
             filter (\<lambda>c. \<not> (c \<in> set (map_keys (clients m)) \<and> \<not> length (buf (send_of m c)) < chan_cap))
                    (map_keys (clients m))"
    by blast
  have a: "hub_broadcast m message = Done m'" using loop by (simp add: hub_broadcast_def)
  have b: "\<forall>c. map_has (clients m) c \<longrightarrow>
                (if length (buf (send_of m c)) < chan_cap
                 then map_has (clients m') c \<and>
                      send_of m' c = (send_of m c)\<lparr>buf := buf (send_of m c) @ [message]\<rparr>
                 else \<not> map_has (clients m') c \<and> \<not> closed (send_of m c) \<and>
                      send_of m' c = (send_of m c)\<lparr>closed := True\<rparr>)"
    using sends op by (auto simp: map_has_def keys)
  have c: "\<forall>c. \<not> map_has (clients m) c \<longrightarrow>
                \<not> map_has (clients m') c \<and> send_of m' c = send_of m c"
    using sends by (auto simp: map_has_def keys)
  have e: "\<forall>c rs' m2 message' m3.
                \<not> map_has (clients m') c \<and> Register c \<notin> set rs' \<and> run m' rs' = Done m2 \<and>
                hub_broadcast m2 message' = Done m3 \<longrightarrow>
                \<not> map_has (clients m2) c \<and> send_of m3 c = send_of m2 c"
  proof (intro allI impI, elim conjE)
    fix c rs' m2 message' m3
    assume 1: "\<not> map_has (clients m') c" and 2: "Register c \<notin> set rs'"
      and 3: "run m' rs' = Done m2" and 4: "hub_broadcast m2 message' = Done m3"
    from run_keeps_absent[OF 3 1 2] have 5: "\<not> map_has (clients m2) c" .
    from 4 have "broadcast_loop message' (map_keys (clients m2)) m2 = Done m3"
      by (simp add: hub_broadcast_def)
    from broadcast_loop_other[OF this] 5 have "send_of m3 c = send_of m2 c"
      by (simp add: map_has_def)
    with 5 show "\<not> map_has (clients m2) c \<and> send_of m3 c = send_of m2 c" by simp
  qed
  from a b c e show ?thesis by blast
qed

theorem broadcast_pass_delivers_or_drops_witness:
  "run new_manager (Register 1 # replicate 255 (Broadcast ''x'') @ [Register 2]) =
     Done \<lparr>clients = [(1, True), (2, True)],
           send_of = (\<lambda>c. make_chan)
             (1 := \<lparr>buf = welcome_message # replicate 255 ''x'', closed = False\<rparr>,
              2 := \<lparr>buf = [welcome_message], closed = False\<rparr>)\<rparr> \<and>
   (\<exists>m'. hub_broadcast \<lparr>clients = [(1, True), (2, True)],
           send_of = (\<lambda>c. make_chan)
             (1 := \<lparr>buf = welcome_message # replicate 255 ''x'', closed = False\<rparr>,
              2 := \<lparr>buf = [welcome_message], closed = False\<rparr>)\<rparr> ''y'' = Done m' \<and>
         \<not> map_has (clients m') 1 \<and>
         send_of m' 1 = \<lparr>buf = welcome_message # replicate 255 ''x'', closed = True\<rparr> \<and>
         map_has (clients m') 2 \<and>
         send_of m' 2 = \<lparr>buf = [welcome_message, ''y''], closed = False\<rparr> \<and>
         \<not> map_has (clients m') 3 \<and> send_of m' 3 = make_chan \<and>
         (\<exists>m3. hub_broadcast m' ''z'' = Done m3 \<and> send_of m3 1 = send_of m' 1))"
proof -
  let ?m = "\<lparr>clients = [(1::nat, True), (2, True)],
           send_of = (\<lambda>c. make_chan)
             (1 := \<lparr>buf = welcome_message # replicate 255 ''x'', closed = False\<rparr>,
              2 := \<lparr>buf = [welcome_message], closed = False\<rparr>)\<rparr>"
  have h: "run new_manager (Register 1 # replicate 255 (Broadcast ''x'') @ [Register 2]) = Done ?m"
    by (rule run_fills_first_queue)
  from broadcast_pass_delivers_or_drops[OF h, of "''y''"] obtain m' where
    a: "hub_broadcast ?m ''y'' = Done m'" and
    b: "\<forall>c. map_has (clients ?m) c \<longrightarrow>
                (if length (buf (send_of ?m c)) < chan_cap
                 then map_has (clients m') c \<and>
                      send_of m' c = (send_of ?m c)\<lparr>buf := buf (send_of ?m c) @ [''y'']\<rparr>
                 else \<not> map_has (clients m') c \<and> \<not> closed (send_of ?m c) \<and>
                      send_of m' c = (send_of ?m c)\<lparr>closed := True\<rparr>)" and
    c: "\<forall>c. \<not> map_has (clients ?m) c \<longrightarrow>
                \<not> map_has (clients m') c \<and> send_of m' c = send_of ?m c" and
    e: "\<forall>c rs' m2 message' m3.
                \<not> map_has (clients m') c \<and> Register c \<notin> set rs' \<and> run m' rs' = Done m2 \<and>
                hub_broadcast m2 message' = Done m3 \<longrightarrow>
                \<not> map_has (clients m2) c \<and> send_of m3 c = send_of m2 c"
    by blast
  from b[rule_format, of 1] have b1: "\<not> map_has (clients m') 1"
    "send_of m' 1 = \<lparr>buf = welcome_message # replicate 255 ''x'', closed = True\<rparr>"
    by (simp_all add: map_has_def map_keys_def chan_cap_def)
  from b[rule_format, of 2] have b2: "map_has (clients m') 2"
    "send_of m' 2 = \<lparr>buf = [welcome_message, ''y''], closed = False\<rparr>"
    by (simp_all add: map_has_def map_keys_def chan_cap_def)
  from c[rule_format, of 3] have b3: "\<not> map_has (clients m') 3" "send_of m' 3 = make_chan"
    by (simp_all add: map_has_def map_keys_def)
  have inv': "hub_inv m'"
    using hub_inv_step[OF hub_inv_run[OF hub_inv_new h], of "Broadcast ''y''" m'] a by simp
  then obtain m3 where m3: "hub_broadcast m' ''z'' = Done m3"
    using broadcast_loop_effect[of "map_keys (clients m')" m' "''z''"]
    by (auto simp: hub_inv_def list_all_iff hub_broadcast_def)
  from e[rule_format, of 1 "[]" m' "''z''" m3] b1 m3 have "send_of m3 1 = send_of m' 1"
    by simp
  with h a b1 b2 b3 m3 show ?thesis by blast
qed

text \<open>
  Claim C4. After any sequence of requests the registry holds no session twice;
  registering a session that is present leaves the keys of the registry as they are;
  unregistering a session that is absent returns the state unchanged, without a fault;
  and unregistering any session completes, closes the queue of a present session once,
  and a second unregister of it changes nothing, so the queue is not closed again.
\<close>

theorem registry_unique_unregister_idempotent:
  assumes "run new_manager rs = Done m"
  shows "distinct (map_keys (clients m)) \<and>
         (\<forall>m'. hub_register m c = Done m' \<longrightarrow>
               distinct (map_keys (clients m')) \<and>
               (map_has (clients m) c \<longrightarrow> map_keys (clients m') = map_keys (clients m))) \<and>
         (\<not> map_has (clients m) c \<longrightarrow> hub_unregister m c = Done m) \<and>
         (\<exists>m'. hub_unregister m c = Done m' \<and> \<not> map_has (clients m') c \<and>
               hub_unregister m' c = Done m' \<and>
               (map_has (clients m) c \<longrightarrow>
                  \<not> closed (send_of m c) \<and> send_of m' c = (send_of m c)\<lparr>closed := True\<rparr>))"
proof -
  have inv: "hub_inv m" using hub_inv_run[OF hub_inv_new assms] .
  then have d: "distinct (map_keys (clients m))"
    and op: "\<forall>c\<in>set (map_keys (clients m)). \<not> closed (send_of m c)"
    by (auto simp: hub_inv_def list_all_iff)
  have reg: "\<forall>m'. hub_register m c = Done m' \<longrightarrow>
               distinct (map_keys (clients m')) \<and>
               (map_has (clients m) c \<longrightarrow> map_keys (clients m') = map_keys (clients m))"
    using d by (auto simp: hub_register_def Let_def map_keys_assign map_has_def split: outcome.splits)
  have absent: "\<not> map_has (clients m) c \<longrightarrow> hub_unregister m c = Done m"
    by (simp add: hub_unregister_def)
  have twice: "\<exists>m'. hub_unregister m c = Done m' \<and> \<not> map_has (clients m') c \<and>
               hub_unregister m' c = Done m' \<and>
               (map_has (clients m) c \<longrightarrow>
                  \<not> closed (send_of m c) \<and> send_of m' c = (send_of m c)\<lparr>closed := True\<rparr>)"
  proof (cases "map_has (clients m) c")
    case True
    then have "\<not> closed (send_of m c)" using op by (simp add: map_has_def)
    with True show ?thesis
      by (simp add: hub_unregister_def Let_def chan_close_def map_has_def map_keys_delete)
  next
    case False
    then show ?thesis by (simp add: hub_unregister_def)
  qed
  from d reg absent twice show ?thesis by blast
qed



theorem registry_unique_unregister_idempotent_witness:
  "run new_manager [Register 1, Register 2, Register 2, Broadcast ''hello'', Unregister 1] =
     Done \<lparr>clients = [(2, True)],
           send_of = (\<lambda>c. make_chan)
             (1 := \<lparr>buf = [welcome_message, ''hello''], closed = True\<rparr>,
              2 := \<lparr>buf = [welcome_message, welcome_message, ''hello''], closed = False\<rparr>)\<rparr> \<and>
   distinct (map_keys [(2::nat, True)]) \<and>
   hub_unregister \<lparr>clients = [(2, True)],
           send_of = (\<lambda>c. make_chan)
             (1 := \<lparr>buf = [welcome_message, ''hello''], closed = True\<rparr>,
              2 := \<lparr>buf = [welcome_message, welcome_message, ''hello''], closed = False\<rparr>)\<rparr> 1
     = Done \<lparr>clients = [(2, True)],
           send_of = (\<lambda>c. make_chan)
             (1 := \<lparr>buf = [welcome_message, ''hello''], closed = True\<rparr>,
              2 := \<lparr>buf = [welcome_message, welcome_message, ''hello''], closed = False\<rparr>)\<rparr> \<and>
   (\<exists>m'. hub_unregister \<lparr>clients = [(2, True)],
           send_of = (\<lambda>c. make_chan)
             (1 := \<lparr>buf = [welcome_message, ''hello''], closed = True\<rparr>,
              2 := \<lparr>buf = [welcome_message, welcome_message, ''hello''], closed = False\<rparr>)\<rparr> 2 = Done m' \<and>
         hub_unregister m' 2 = Done m' \<and> \<not> map_has (clients m') 2 \<and>
         send_of m' 2 = \<lparr>buf = [welcome_message, welcome_message, ''hello''], closed = True\<rparr>)"
proof -
  let ?m = "\<lparr>clients = [(2::nat, True)],
           send_of = (\<lambda>c. make_chan)
             (1 := \<lparr>buf = [welcome_message, ''hello''], closed = True\<rparr>,
              2 := \<lparr>buf = [welcome_message, welcome_message, ''hello''], closed = False\<rparr>)\<rparr>"
  have h: "run new_manager [Register 1, Register 2, Register 2, Broadcast ''hello'', Unregister 1] = Done ?m"
    by (simp add: new_manager_def hub_register_def hub_unregister_def hub_broadcast_def
        broadcast_one_def chan_send_def chan_try_send_def chan_close_def chan_cap_def make_chan_def
        map_keys_def map_has_def map_delete_def Let_def fun_upd_twist)
  from registry_unique_unregister_idempotent[OF h, of 1]
  have one: "distinct (map_keys (clients ?m))" "hub_unregister ?m 1 = Done ?m"
    by (simp_all add: map_has_def map_keys_def)
  from registry_unique_unregister_idempotent[OF h, of 2]
  have two: "\<exists>m'. hub_unregister ?m 2 = Done m' \<and> \<not> map_has (clients m') 2 \<and>
               hub_unregister m' 2 = Done m' \<and>
               (map_has (clients ?m) 2 \<longrightarrow>
                  \<not> closed (send_of ?m 2) \<and> send_of m' 2 = (send_of ?m 2)\<lparr>closed := True\<rparr>)"
    by blast
  then obtain m' where "hub_unregister ?m 2 = Done m'" "\<not> map_has (clients m') 2"
    "hub_unregister m' 2 = Done m'"
    "send_of m' 2 = \<lparr>buf = [welcome_message, welcome_message, ''hello''], closed = True\<rparr>"
    by (auto simp: map_has_def map_keys_def)
  with h one show ?thesis by simp
qed

section \<open>What the handlers leave alone\<close>

text \<open>
  The steps a handler is made of each change one part of the world: a log line, a
  statement issued, a reply pushed. The lemmas say which parts stay.
\<close>

lemma logs_fields [simp]:
  "client (logs l w) = client w" "db (logs l w) = db w" "sent (logs l w) = sent w"
  "issued (logs l w) = issued w" "logged (logs l w) = logged w @ [l]"
  by (simp_all add: logs_def)

lemma issue_fields [simp]:
  "client (issue c w) = client w" "db (issue c w) = db w" "sent (issue c w) = sent w"
  "issued (issue c w) = issued w @ [c]" "logged (issue c w) = logged w"
  by (simp_all add: issue_def)

lemma push_fields [simp]:
  "client (push j w) = client w" "db (push j w) = db w" "sent (push j w) = sent w @ [j]"
  "issued (push j w) = issued w" "logged (push j w) = logged w"
  by (simp_all add: push_def)

lemma sendError_fields [simp]:
  "client (sendError c m w) = client w" "db (sendError c m w) = db w"
  "sent (sendError c m w) = sent w @ [error_envelope c m]"
  "issued (sendError c m w) = issued w" "logged (sendError c m w) = logged w"
  by (simp_all add: sendError_def)

lemma sendAuthError_fields [simp]:
  "client (sendAuthError m w) = client w" "db (sendAuthError m w) = db w"
  "sent (sendAuthError m w) = sent w @ [error_envelope ''auth_error'' m]"
  "issued (sendAuthError m w) = issued w" "logged (sendAuthError m w) = logged w"
  by (simp_all add: sendAuthError_def)

lemma sendRegistrationSuccess_fields [simp]:
  "client (sendRegistrationSuccess a u t w) = client w" "db (sendRegistrationSuccess a u t w) = db w"
  "sent (sendRegistrationSuccess a u t w) = sent w @ [register_success_envelope a u t]"
  "issued (sendRegistrationSuccess a u t w) = issued w"
  "logged (sendRegistrationSuccess a u t w) = logged w"
  by (simp_all add: sendRegistrationSuccess_def)

lemma completeAuthentication_fields [simp]:
  "client (completeAuthentication u t w) = (client w)\<lparr>authenticated := True, username := u, authToken := t\<rparr>"
  "db (completeAuthentication u t w) = db w"
  "sent (completeAuthentication u t w) = sent w @ [auth_success_envelope u t]"
  "issued (completeAuthentication u t w) = issued w"
  by (simp_all add: completeAuthentication_def)

lemma server_error_fields [simp]:
  "client (server_error f w) = client w" "db (server_error f w) = db w"
  "sent (server_error f w) =
     sent w @ [error_envelope ''registration_error'' ''Registration failed due to a server error'']"
  "issued (server_error f w) = issued w"
  by (simp_all add: server_error_def)

lemma validateToken_client [simp]: "client (snd (validateToken e tok ip w)) = client w"
  by (simp add: validateToken_def Let_def split: sum.splits pgerror.splits prod.splits option.splits)

lemma validateCredentials_client [simp]: "client (snd (validateCredentials e u p w)) = client w"
  by (simp add: validateCredentials_def Let_def split: list.splits option.splits)

section \<open>The examples, evaluated\<close>

lemmas json_defs = unmarshal_Message_def unmarshal_registration_def unmarshal_credentials_def
  unmarshal_tokenAuth_def stringField_def rawField_def key_selects_def lower_def char_in_def
  zero_Message_def zero_registration_def zero_credentials_def envelope_def

lemmas db_defs = select_username_exists_def select_email_exists_def insert_user_def
  select_user_id_def insert_token_def select_token_def token_join_def update_token_def

lemmas handler_defs = handlePacket_def handleRegistration_def handleAuthentication_def
  registration_checks_def registration_insert_def registration_token_def validateToken_def
  validateCredentials_def completeAuthentication_def sendRegistrationSuccess_def sendError_def
  sendAuthError_def server_error_def getClientIP_def logs_def issue_def push_def connect_def
  new_Client_def

lemma alice_registered:
  "handlePacket env0 register_alice (connect ''10.0.0.1:5000'' ''10.0.0.1'' empty_db) =
   \<lparr>client = \<lparr>client_id = ''10.0.0.1:5000'', conn_ip = ''10.0.0.1'', username = ''alice'',
               authenticated = True, authToken = alice_token\<rparr>,
     db = \<lparr>users = [\<lparr>u_id = 1, u_username = ''alice'', u_password_hash = ''$2a$12$secretpw'',
                       u_email = Some [], u_created_at = 1000, u_last_login = None\<rparr>],
            auth_tokens = [\<lparr>t_id = 1, t_user_id = Some 1,
                             t_token = alice_token,
                             t_ip_address = Some ''10.0.0.1'', t_created_at = 1000,
                             t_expires_at = 605800, t_last_used_at = None, t_is_revoked = False\<rparr>],
            users_id_seq = 1, auth_tokens_id_seq = 1\<rparr>,
     sent = [register_success_envelope True ''alice'' alice_token],
     logged = [LogPrintf ''New user registered and authenticated: %s'' [''alice'']],
     issued = [SelectUsernameExists, InsertUser, SelectUserId, InsertToken]\<rparr>"
  by (simp add: register_alice_def env0_def empty_db_def json_defs db_defs handler_defs
      IsValidEmail_def seven_days_def Let_def alice_token_def)


lemma alice_db_eq:
  "alice_db =
     \<lparr>users = [\<lparr>u_id = 1, u_username = ''alice'', u_password_hash = ''$2a$12$secretpw'',
                u_email = Some [], u_created_at = 1000, u_last_login = None\<rparr>],
      auth_tokens = [\<lparr>t_id = 1, t_user_id = Some 1, t_token = alice_token,
                      t_ip_address = Some ''10.0.0.1'', t_created_at = 1000,
                      t_expires_at = 605800, t_last_used_at = None, t_is_revoked = False\<rparr>],
      users_id_seq = 1, auth_tokens_id_seq = 1\<rparr>"
  by (simp add: alice_db_def alice_registered)

lemmas eval_defs = json_defs db_defs handler_defs env0_def empty_db_def alice_token_def
  register_alice_def IsValidEmail_def seven_days_def Let_def

section \<open>The authenticated flag\<close>

lemma handleAuthentication_keeps_auth:
  "authenticated (client w) \<Longrightarrow> authenticated (client (handleAuthentication e msg w))"
  by (simp add: handleAuthentication_def case_prod_beta split: bool.splits)

lemma registration_token_keeps_auth:
  "authenticated (client w) \<Longrightarrow> authenticated (client (registration_token e r w))"
  by (simp add: registration_token_def Let_def split: option.splits)

lemma registration_insert_keeps_auth:
  "authenticated (client w) \<Longrightarrow> authenticated (client (registration_insert e r w))"
  by (simp add: registration_insert_def Let_def registration_token_keeps_auth split: option.splits)

lemma registration_checks_keeps_auth:
  "authenticated (client w) \<Longrightarrow> authenticated (client (registration_checks e r w))"
  by (simp add: registration_checks_def Let_def registration_insert_keeps_auth
      split: option.splits bool.splits)

lemma handleRegistration_keeps_auth:
  "authenticated (client w) \<Longrightarrow> authenticated (client (handleRegistration e msg w))"
  by (simp add: handleRegistration_def registration_checks_keeps_auth split: prod.splits bool.splits)

lemma handlePacket_keeps_auth:
  "authenticated (client w) \<Longrightarrow> authenticated (client (handlePacket e f w))"
  by (simp add: handlePacket_def Let_def case_prod_beta handleAuthentication_keeps_auth
      handleRegistration_keeps_auth)

lemma readPump_append: "readPump (xs @ ys) w = readPump ys (readPump xs w)"
  by (induction xs arbitrary: w) auto

lemma readPump_keeps_auth:
  "authenticated (client w) \<Longrightarrow> authenticated (client (readPump fs w))"
  by (induction fs arbitrary: w) (auto simp: handlePacket_keeps_auth)

text \<open>
  Claim C9. The authenticated flag of a session is false when the connection is made, and
  no frame resets it: whatever the envelope and whatever the store and the clock do, a
  session that is authenticated before \<open>handlePacket\<close> is authenticated after it, and so
  along every run of the read pump. The flag goes from false to true at most once; there
  is no way back. (The login branch calls \<open>validateCredentials\<close> and \<open>sendAuthError\<close>, which
  are modelled from the spec.)
\<close>

theorem authenticated_is_monotonic:
  "\<not> authenticated (client (connect addr ip d)) \<and>
   (authenticated (client w) \<longrightarrow> authenticated (client (handlePacket e f w))) \<and>
   (authenticated (client (readPump fs w)) \<longrightarrow> authenticated (client (readPump (fs @ fs') w)))"
  by (simp add: connect_def new_Client_def handlePacket_keeps_auth readPump_append readPump_keeps_auth)

theorem authenticated_is_monotonic_witness:
  "\<not> authenticated (client (connect ''10.0.0.1:5000'' ''10.0.0.1'' empty_db)) \<and>
   authenticated (client (readPump [(env0, register_alice)]
                            (connect ''10.0.0.1:5000'' ''10.0.0.1'' empty_db))) \<and>
   authenticated (client (readPump
       ([(env0, register_alice)] @
        [(env0, NotJSON ''hello''),
         (env0, envelope ''token_auth'' (JObj [(''token'', JStr ''no such token'')])),
         (env0, envelope ''login'' (JObj [(''username'', JStr ''alice''), (''password'', JStr ''wrong'')])),
         (env0, envelope ''logout'' JNull)])
       (connect ''10.0.0.1:5000'' ''10.0.0.1'' empty_db)))"
proof -
  let ?w = "connect ''10.0.0.1:5000'' ''10.0.0.1'' empty_db"
  have a: "authenticated (client (readPump [(env0, register_alice)] ?w))"
    by (simp add: alice_registered)
  from authenticated_is_monotonic[of "''10.0.0.1:5000''" "''10.0.0.1''" empty_db ?w env0 register_alice
      "[(env0, register_alice)]"
      "[(env0, NotJSON ''hello''),
         (env0, envelope ''token_auth'' (JObj [(''token'', JStr ''no such token'')])),
         (env0, envelope ''login'' (JObj [(''username'', JStr ''alice''), (''password'', JStr ''wrong'')])),
         (env0, envelope ''logout'' JNull)]"] a
  show ?thesis by blast
qed

section \<open>The email pattern\<close>

text \<open>
  What the matcher accepts, read off the pattern: a non-empty local part of characters
  of the first class, \<open>@\<close>, a non-empty domain of characters of the second class, a dot,
  and at least two lower-case letters, with nothing before or after.
\<close>

lemma set_one_of: "set (one_of p s) = {r. \<exists>c. s = c # r \<and> p c}"
  by (cases s) (auto simp: one_of_def)

lemma set_star_of: "set (star_of p s) = {r. \<exists>l. s = l @ r \<and> list_all p l}"
proof (induction s)
  case Nil
  then show ?case by auto
next
  case (Cons c s)
  show ?case
  proof (intro set_eqI iffI)
    fix r assume "r \<in> set (star_of p (c # s))"
    then consider "r = c # s" | "p c" "r \<in> set (star_of p s)" by (auto split: if_splits)
    then show "r \<in> {r. \<exists>l. c # s = l @ r \<and> list_all p l}"
    proof cases
      case 1
      then show ?thesis by (auto intro: exI[of _ "[]"])
    next
      case 2
      with Cons.IH obtain l where "s = l @ r" "list_all p l" by auto
      with 2 show ?thesis by (auto intro: exI[of _ "c # l"])
    qed
  next
    fix r assume "r \<in> {r. \<exists>l. c # s = l @ r \<and> list_all p l}"
    then obtain l where l: "c # s = l @ r" "list_all p l" by auto
    show "r \<in> set (star_of p (c # s))"
    proof (cases l)
      case Nil
      with l have "r = c # s" by simp
      then show ?thesis by simp
    next
      case (Cons a l')
      with l have "a = c" "s = l' @ r" "p c" "list_all p l'" by auto
      with Cons.IH show ?thesis by auto
    qed
  qed
qed

lemma set_and_then: "set (and_then m1 m2 s) = (\<Union>r\<in>set (m1 s). set (m2 r))"
  by (simp add: and_then_def)

lemma set_plus_of: "set (plus_of p s) = {r. \<exists>l. s = l @ r \<and> l \<noteq> [] \<and> list_all p l}"
proof -
  have "set (plus_of p s) = {r. \<exists>c l. s = c # l @ r \<and> p c \<and> list_all p l}"
    by (auto simp: plus_of_def set_and_then set_one_of set_star_of)
  also have "\<dots> = {r. \<exists>l. s = l @ r \<and> l \<noteq> [] \<and> list_all p l}"
  proof (intro set_eqI iffI)
    fix r assume "r \<in> {r. \<exists>c l. s = c # l @ r \<and> p c \<and> list_all p l}"
    then obtain c l where "s = (c # l) @ r" "c # l \<noteq> []" "list_all p (c # l)" by auto
    then show "r \<in> {r. \<exists>l. s = l @ r \<and> l \<noteq> [] \<and> list_all p l}" by blast
  next
    fix r assume "r \<in> {r. \<exists>l. s = l @ r \<and> l \<noteq> [] \<and> list_all p l}"
    then obtain l where "s = l @ r" "l \<noteq> []" "list_all p l" by auto
    then show "r \<in> {r. \<exists>c l. s = c # l @ r \<and> p c \<and> list_all p l}"
      by (cases l) auto
  qed
  finally show ?thesis .
qed

lemma IsValidEmail_iff:
  "IsValidEmail s \<longleftrightarrow>
     (\<exists>l d t. s = l @ ''@'' @ d @ ''.'' @ t \<and>
        l \<noteq> [] \<and> list_all local_char l \<and>
        d \<noteq> [] \<and> list_all domain_char d \<and>
        2 \<le> length t \<and> list_all tld_char t)"
proof
  assume "IsValidEmail s"
  then obtain l r1 where 1: "s = l @ r1" "l \<noteq> []" "list_all local_char l"
    and "[] \<in> set ((and_then (one_of (\<lambda>c. c = CHR ''@''))
        (and_then (plus_of domain_char)
        (and_then (one_of (\<lambda>c. c = CHR ''.''))
        (and_then (one_of tld_char)
        (and_then (one_of tld_char) (star_of tld_char)))))) r1)"
    unfolding IsValidEmail_def emailRegex_def
    by (subst (asm) set_and_then) (auto simp: set_plus_of)
  then obtain r2 where 2: "r1 = CHR ''@'' # r2"
    and "[] \<in> set ((and_then (plus_of domain_char)
        (and_then (one_of (\<lambda>c. c = CHR ''.''))
        (and_then (one_of tld_char)
        (and_then (one_of tld_char) (star_of tld_char))))) r2)"
    by (subst (asm) set_and_then) (auto simp: set_one_of)
  then obtain d r3 where 3: "r2 = d @ r3" "d \<noteq> []" "list_all domain_char d"
    and "[] \<in> set ((and_then (one_of (\<lambda>c. c = CHR ''.''))
        (and_then (one_of tld_char)
        (and_then (one_of tld_char) (star_of tld_char)))) r3)"
    by (subst (asm) set_and_then) (auto simp: set_plus_of)
  then obtain r4 where 4: "r3 = CHR ''.'' # r4"
    and "[] \<in> set ((and_then (one_of tld_char)
        (and_then (one_of tld_char) (star_of tld_char))) r4)"
    by (subst (asm) set_and_then) (auto simp: set_one_of)
  then obtain a b t where 5: "r4 = a # b # t" "tld_char a" "tld_char b" "list_all tld_char t"
    by (auto simp: set_and_then set_one_of set_star_of)
  show "\<exists>l d t. s = l @ ''@'' @ d @ ''.'' @ t \<and>
        l \<noteq> [] \<and> list_all local_char l \<and>
        d \<noteq> [] \<and> list_all domain_char d \<and>
        2 \<le> length t \<and> list_all tld_char t"
    using 1 2 3 4 5 by (intro exI[of _ l] exI[of _ d] exI[of _ "a # b # t"]) simp
next
  assume "\<exists>l d t. s = l @ ''@'' @ d @ ''.'' @ t \<and>
        l \<noteq> [] \<and> list_all local_char l \<and>
        d \<noteq> [] \<and> list_all domain_char d \<and>
        2 \<le> length t \<and> list_all tld_char t"
  then obtain l d t where s: "s = l @ ''@'' @ d @ ''.'' @ t"
    and l: "l \<noteq> []" "list_all local_char l" and d: "d \<noteq> []" "list_all domain_char d"
    and t: "2 \<le> length t" "list_all tld_char t" by blast
  from t obtain a b t' where t': "t = a # b # t'" "tld_char a" "tld_char b" "list_all tld_char t'"
    by (cases t; cases "tl t") auto
  have 5: "[] \<in> set ((and_then (one_of tld_char)
        (and_then (one_of tld_char) (star_of tld_char))) t)"
    using t' by (auto simp: set_and_then set_one_of set_star_of)
  have 4: "[] \<in> set ((and_then (one_of (\<lambda>c. c = CHR ''.''))
        (and_then (one_of tld_char)
        (and_then (one_of tld_char) (star_of tld_char)))) (''.'' @ t))"
    using 5 by (subst set_and_then) (auto simp: set_one_of)
  have 3: "[] \<in> set ((and_then (plus_of domain_char)
        (and_then (one_of (\<lambda>c. c = CHR ''.''))
        (and_then (one_of tld_char)
        (and_then (one_of tld_char) (star_of tld_char))))) (d @ ''.'' @ t))"
    using 4 d by (subst set_and_then) (auto simp: set_plus_of)
  have 2: "[] \<in> set ((and_then (one_of (\<lambda>c. c = CHR ''@''))
        (and_then (plus_of domain_char)
        (and_then (one_of (\<lambda>c. c = CHR ''.''))
        (and_then (one_of tld_char)
        (and_then (one_of tld_char) (star_of tld_char)))))) (''@'' @ d @ ''.'' @ t))"
    using 3 by (subst set_and_then) (auto simp: set_one_of)
  show "IsValidEmail s"
    unfolding IsValidEmail_def emailRegex_def s
    using 2 l by (subst set_and_then) (auto simp: set_plus_of)
qed

section \<open>Registration\<close>

text \<open>
  Claim C5. A register request whose payload does not decode is answered with the error
  \<open>Invalid registration format\<close>. One that decodes is checked in this order: the username
  has at least 3 bytes, the password at least 6, and an email that is not empty matches
  \<open>IsValidEmail\<close>. The first check that fails is answered with its own message under the
  subtype \<open>registration_error\<close>; then no statement is issued to the store, the store is
  what it was and the session is unchanged. A request that passes the three checks goes
  on to the checks against the store.
\<close>

theorem registration_validation:
  "(fst (unmarshal_registration (Payload msg)) \<longrightarrow>
      sent (handleRegistration e msg w) =
        sent w @ [error_envelope ''registration_error'' ''Invalid registration format''] \<and>
      db (handleRegistration e msg w) = db w \<and>
      issued (handleRegistration e msg w) = issued w \<and>
      client (handleRegistration e msg w) = client w) \<and>
   (unmarshal_registration (Payload msg) = (False, r) \<longrightarrow>
      (length (reg_username r) < 3 \<or> length (reg_password r) < 6 \<or>
       (reg_email r \<noteq> [] \<and> \<not> IsValidEmail (reg_email r)) \<longrightarrow>
         sent (handleRegistration e msg w) =
           sent w @ [error_envelope ''registration_error''
                      (if length (reg_username r) < 3
                       then ''Username must be at least 3 characters''
                       else if length (reg_password r) < 6
                       then ''Password must be at least 6 characters''
                       else ''Invalid email format'')] \<and>
         db (handleRegistration e msg w) = db w \<and>
         issued (handleRegistration e msg w) = issued w \<and>
         client (handleRegistration e msg w) = client w) \<and>
      (3 \<le> length (reg_username r) \<and> 6 \<le> length (reg_password r) \<and>
       (reg_email r = [] \<or> IsValidEmail (reg_email r)) \<longrightarrow>
         handleRegistration e msg w = registration_checks e r w))"
  by (cases "unmarshal_registration (Payload msg)")
     (auto simp: handleRegistration_def split: bool.splits)

theorem registration_validation_witness:
  "unmarshal_registration
     (Payload \<lparr>Type = ''register'',
               Payload = Some (JObj [(''username'', JStr ''ab''), (''password'', JStr ''secret1'')])\<rparr>)
     = (False, \<lparr>reg_username = ''ab'', reg_password = ''secret1'', reg_email = []\<rparr>) \<and>
   sent (handleRegistration env0
          \<lparr>Type = ''register'',
            Payload = Some (JObj [(''username'', JStr ''ab''), (''password'', JStr ''secret1'')])\<rparr>
          (connect ''10.0.0.1:5000'' ''10.0.0.1'' empty_db)) =
     [error_envelope ''registration_error'' ''Username must be at least 3 characters''] \<and>
   db (handleRegistration env0
          \<lparr>Type = ''register'',
            Payload = Some (JObj [(''username'', JStr ''ab''), (''password'', JStr ''secret1'')])\<rparr>
          (connect ''10.0.0.1:5000'' ''10.0.0.1'' empty_db)) = empty_db \<and>
   issued (handleRegistration env0
          \<lparr>Type = ''register'',
            Payload = Some (JObj [(''username'', JStr ''ab''), (''password'', JStr ''secret1'')])\<rparr>
          (connect ''10.0.0.1:5000'' ''10.0.0.1'' empty_db)) = [] \<and>
   sent (handleRegistration env0
          \<lparr>Type = ''register'',
            Payload = Some (JObj [(''username'', JStr ''alice''), (''password'', JStr ''pw''),
                                  (''email'', JStr ''alice@example.com'')])\<rparr>
          (connect ''10.0.0.1:5000'' ''10.0.0.1'' empty_db)) =
     [error_envelope ''registration_error'' ''Password must be at least 6 characters''] \<and>
   sent (handleRegistration env0
          \<lparr>Type = ''register'',
            Payload = Some (JObj [(''username'', JStr ''alice''), (''password'', JStr ''secretpw''),
                                  (''email'', JStr ''alice@example'')])\<rparr>
          (connect ''10.0.0.1:5000'' ''10.0.0.1'' empty_db)) =
     [error_envelope ''registration_error'' ''Invalid email format''] \<and>
   sent (handleRegistration env0
          \<lparr>Type = ''register'', Payload = Some (JArr [])\<rparr>
          (connect ''10.0.0.1:5000'' ''10.0.0.1'' empty_db)) =
     [error_envelope ''registration_error'' ''Invalid registration format''] \<and>
   handleRegistration env0
     \<lparr>Type = ''register'',
       Payload = Some (JObj [(''username'', JStr ''alice''), (''password'', JStr ''secretpw''),
                             (''email'', JStr ''alice@example.com'')])\<rparr>
     (connect ''10.0.0.1:5000'' ''10.0.0.1'' empty_db) =
   registration_checks env0
     \<lparr>reg_username = ''alice'', reg_password = ''secretpw'', reg_email = ''alice@example.com''\<rparr>
     (connect ''10.0.0.1:5000'' ''10.0.0.1'' empty_db)"
proof -
  let ?w = "connect ''10.0.0.1:5000'' ''10.0.0.1'' empty_db"
  let ?m1 = "\<lparr>Type = ''register'',
            Payload = Some (JObj [(''username'', JStr ''ab''), (''password'', JStr ''secret1'')])\<rparr>"
  let ?r1 = "\<lparr>reg_username = ''ab'', reg_password = ''secret1'', reg_email = []\<rparr>"
  let ?m2 = "\<lparr>Type = ''register'',
            Payload = Some (JObj [(''username'', JStr ''alice''), (''password'', JStr ''pw''),
                                  (''email'', JStr ''alice@example.com'')])\<rparr>"
  let ?r2 = "\<lparr>reg_username = ''alice'', reg_password = ''pw'', reg_email = ''alice@example.com''\<rparr>"
  let ?m3 = "\<lparr>Type = ''register'',
            Payload = Some (JObj [(''username'', JStr ''alice''), (''password'', JStr ''secretpw''),
                                  (''email'', JStr ''alice@example'')])\<rparr>"
  let ?r3 = "\<lparr>reg_username = ''alice'', reg_password = ''secretpw'', reg_email = ''alice@example''\<rparr>"
  let ?m4 = "\<lparr>Type = ''register'', Payload = Some (JArr [])\<rparr>"
  have u1: "unmarshal_registration (Payload ?m1) = (False, ?r1)" by (simp add: json_defs)
  have u2: "unmarshal_registration (Payload ?m2) = (False, ?r2)" by (simp add: json_defs)
  have u3: "unmarshal_registration (Payload ?m3) = (False, ?r3)" by (simp add: json_defs)
  have u4: "fst (unmarshal_registration (Payload ?m4))" by (simp add: json_defs)
  have bad: "\<not> IsValidEmail ''alice@example''"
    by (simp add: IsValidEmail_def emailRegex_def and_then_def plus_of_def one_of_def
        local_char_def domain_char_def tld_char_def char_in_def)
  from registration_validation[of ?m1 env0 ?w ?r1] u1
  have a: "sent (handleRegistration env0 ?m1 ?w) =
             [error_envelope ''registration_error'' ''Username must be at least 3 characters'']"
    "db (handleRegistration env0 ?m1 ?w) = empty_db" "issued (handleRegistration env0 ?m1 ?w) = []"
    by (simp_all add: connect_def)
  from registration_validation[of ?m2 env0 ?w ?r2] u2
  have b: "sent (handleRegistration env0 ?m2 ?w) =
             [error_envelope ''registration_error'' ''Password must be at least 6 characters'']"
    by (simp add: connect_def)
  from registration_validation[of ?m3 env0 ?w ?r3] u3 bad
  have c: "sent (handleRegistration env0 ?m3 ?w) =
             [error_envelope ''registration_error'' ''Invalid email format'']"
    by (simp add: connect_def)
  from registration_validation[of ?m4 env0 ?w ?r1] u4
  have d: "sent (handleRegistration env0 ?m4 ?w) =
             [error_envelope ''registration_error'' ''Invalid registration format'']"
    by (simp add: connect_def)
  let ?m5 = "\<lparr>Type = ''register'',
       Payload = Some (JObj [(''username'', JStr ''alice''), (''password'', JStr ''secretpw''),
                             (''email'', JStr ''alice@example.com'')])\<rparr>"
  let ?r5 = "\<lparr>reg_username = ''alice'', reg_password = ''secretpw'',
              reg_email = ''alice@example.com''\<rparr>"
  have u5: "unmarshal_registration (Payload ?m5) = (False, ?r5)" by (simp add: json_defs)
  have good: "IsValidEmail ''alice@example.com''"
    by (simp add: IsValidEmail_def emailRegex_def and_then_def plus_of_def one_of_def
        local_char_def domain_char_def tld_char_def char_in_def)
  from registration_validation[of ?m5 env0 ?w ?r5] u5 good
  have f: "handleRegistration env0 ?m5 ?w = registration_checks env0 ?r5 ?w"
    by simp
  from u1 a b c d f show ?thesis by simp
qed

lemma handleRegistration_valid:
  assumes "unmarshal_registration (Payload msg) = (False, r)"
    and "3 \<le> length (reg_username r)" and "6 \<le> length (reg_password r)"
    and "reg_email r = [] \<or> IsValidEmail (reg_email r)"
  shows "handleRegistration e msg w = registration_checks e r w"
  using assms by (auto simp: handleRegistration_def)

lemma registration_checks_pass:
  assumes "select_username_exists e (db w) (reg_username r) = Some False"
    and "reg_email r \<noteq> [] \<longrightarrow> select_email_exists e (db w) (reg_email r) = Some False"
  shows "registration_checks e r w =
           registration_insert e r
             (if reg_email r \<noteq> [] then issue SelectEmailExists (issue SelectUsernameExists w)
              else issue SelectUsernameExists w)"
  using assms by (simp add: registration_checks_def Let_def)

lemma registration_insert_ok:
  assumes "bcrypt_generate e (reg_password r) = Some h"
    and "insert_user e (db w) (reg_username r) h (reg_email r) = Some d1"
  shows "registration_insert e r w = registration_token e r ((issue InsertUser w)\<lparr>db := d1\<rparr>)"
  using assms by (simp add: registration_insert_def Let_def)

lemma registration_token_failed:
  assumes "select_user_id e (db w) (reg_username r) = None \<or>
           (\<exists>uid. select_user_id e (db w) (reg_username r) = Some uid \<and>
                  insert_token e (db w) uid (new_uuid e) (conn_ip (client w)) = None)"
  shows "sent (registration_token e r w) = sent w @ [register_success_envelope False [] []] \<and>
         client (registration_token e r w) = client w \<and> db (registration_token e r w) = db w"
  using assms by (auto simp: registration_token_def Let_def getClientIP_def)

text \<open>
  Claim C6. When a register request has passed validation and the uniqueness checks, the
  password has been hashed and the user row has been inserted, and then the lookup of the
  new user's id fails, or the insert of the token fails, the reply is
  \<open>register_success\<close> with \<open>success\<close> true and \<open>autoLogin\<close> false and with neither a
  \<open>username\<close> nor a \<open>token\<close> member; the session is left as it was, so it does not become
  authenticated; and the store keeps the new user row.
\<close>

theorem registration_without_auto_login:
  assumes "unmarshal_registration (Payload msg) = (False, r)"
    and "3 \<le> length (reg_username r)" and "6 \<le> length (reg_password r)"
    and "reg_email r = [] \<or> IsValidEmail (reg_email r)"
    and "select_username_exists e (db w) (reg_username r) = Some False"
    and "reg_email r \<noteq> [] \<longrightarrow> select_email_exists e (db w) (reg_email r) = Some False"
    and "bcrypt_generate e (reg_password r) = Some h"
    and "insert_user e (db w) (reg_username r) h (reg_email r) = Some d1"
    and "select_user_id e d1 (reg_username r) = None \<or>
         (\<exists>uid. select_user_id e d1 (reg_username r) = Some uid \<and>
                insert_token e d1 uid (new_uuid e) (conn_ip (client w)) = None)"
  shows "sent (handleRegistration e msg w) =
           sent w @ [JObj [(''payload'',
                            JObj [(''autoLogin'', JBool False),
                                  (''message'', JStr ''Registration successful''),
                                  (''success'', JBool True)]),
                           (''type'', JStr ''register_success'')]] \<and>
         client (handleRegistration e msg w) = client w \<and>
         db (handleRegistration e msg w) = d1"
proof -
  let ?w1 = "if reg_email r \<noteq> [] then issue SelectEmailExists (issue SelectUsernameExists w)
             else issue SelectUsernameExists w"
  let ?w2 = "(issue InsertUser ?w1)\<lparr>db := d1\<rparr>"
  have 1: "handleRegistration e msg w = registration_checks e r w"
    using assms(1-4) by (rule handleRegistration_valid)
  have 2: "registration_checks e r w = registration_insert e r ?w1"
    using assms(5,6) by (rule registration_checks_pass)
  have 3: "registration_insert e r ?w1 = registration_token e r ?w2"
    using assms(7,8) by (intro registration_insert_ok) auto
  have 4: "sent (registration_token e r ?w2) = sent ?w2 @ [register_success_envelope False [] []] \<and>
         client (registration_token e r ?w2) = client ?w2 \<and> db (registration_token e r ?w2) = db ?w2"
    using assms(9) by (intro registration_token_failed) auto
  show ?thesis
    unfolding 1 2 3 using 4 by (auto simp: register_success_envelope_def)
qed

theorem registration_without_auto_login_witness:
  "sent (handleRegistration (env0\<lparr>faults := (\<lambda>c. c = SelectUserId)\<rparr>)
          \<lparr>Type = ''register'',
            Payload = Some (JObj [(''username'', JStr ''alice''), (''password'', JStr ''secretpw''),
                                  (''email'', JStr [])])\<rparr>
          (connect ''10.0.0.1:5000'' ''10.0.0.1'' empty_db)) =
     [JObj [(''payload'',
             JObj [(''autoLogin'', JBool False),
                   (''message'', JStr ''Registration successful''),
                   (''success'', JBool True)]),
            (''type'', JStr ''register_success'')]] \<and>
   client (handleRegistration (env0\<lparr>faults := (\<lambda>c. c = SelectUserId)\<rparr>)
          \<lparr>Type = ''register'',
            Payload = Some (JObj [(''username'', JStr ''alice''), (''password'', JStr ''secretpw''),
                                  (''email'', JStr [])])\<rparr>
          (connect ''10.0.0.1:5000'' ''10.0.0.1'' empty_db)) =
     new_Client ''10.0.0.1:5000'' ''10.0.0.1'' \<and>
   map u_username (users (db (handleRegistration (env0\<lparr>faults := (\<lambda>c. c = InsertToken)\<rparr>)
          \<lparr>Type = ''register'',
            Payload = Some (JObj [(''username'', JStr ''alice''), (''password'', JStr ''secretpw''),
                                  (''email'', JStr [])])\<rparr>
          (connect ''10.0.0.1:5000'' ''10.0.0.1'' empty_db)))) = [''alice''] \<and>
   \<not> authenticated (client (handleRegistration (env0\<lparr>faults := (\<lambda>c. c = InsertToken)\<rparr>)
          \<lparr>Type = ''register'',
            Payload = Some (JObj [(''username'', JStr ''alice''), (''password'', JStr ''secretpw''),
                                  (''email'', JStr [])])\<rparr>
          (connect ''10.0.0.1:5000'' ''10.0.0.1'' empty_db)))"
proof -
  let ?w = "connect ''10.0.0.1:5000'' ''10.0.0.1'' empty_db"
  let ?m = "\<lparr>Type = ''register'',
            Payload = Some (JObj [(''username'', JStr ''alice''), (''password'', JStr ''secretpw''),
                                  (''email'', JStr [])])\<rparr>"
  let ?r = "\<lparr>reg_username = ''alice'', reg_password = ''secretpw'', reg_email = []\<rparr>"
  let ?e1 = "env0\<lparr>faults := (\<lambda>c. c = SelectUserId)\<rparr>"
  let ?e2 = "env0\<lparr>faults := (\<lambda>c. c = InsertToken)\<rparr>"
  let ?d1 = "\<lparr>users = [\<lparr>u_id = 1, u_username = ''alice'', u_password_hash = ''$2a$12$secretpw'',
                u_email = Some [], u_created_at = 1000, u_last_login = None\<rparr>],
      auth_tokens = [], users_id_seq = 1, auth_tokens_id_seq = 0\<rparr>"
  have u: "unmarshal_registration (Payload ?m) = (False, ?r)" by (simp add: json_defs)
  have l: "3 \<le> length (reg_username ?r)" "6 \<le> length (reg_password ?r)"
    "reg_email ?r = [] \<or> IsValidEmail (reg_email ?r)" by simp_all
  have x1: "select_username_exists ?e1 (db ?w) (reg_username ?r) = Some False"
    "reg_email ?r \<noteq> [] \<longrightarrow> select_email_exists ?e1 (db ?w) (reg_email ?r) = Some False"
    "bcrypt_generate ?e1 (reg_password ?r) = Some ''$2a$12$secretpw''"
    "insert_user ?e1 (db ?w) (reg_username ?r) ''$2a$12$secretpw'' (reg_email ?r) = Some ?d1"
    "select_user_id ?e1 ?d1 (reg_username ?r) = None \<or>
         (\<exists>uid. select_user_id ?e1 ?d1 (reg_username ?r) = Some uid \<and>
                insert_token ?e1 ?d1 uid (new_uuid ?e1) (conn_ip (client ?w)) = None)"
    by (simp_all add: eval_defs)
  have x2: "select_username_exists ?e2 (db ?w) (reg_username ?r) = Some False"
    "reg_email ?r \<noteq> [] \<longrightarrow> select_email_exists ?e2 (db ?w) (reg_email ?r) = Some False"
    "bcrypt_generate ?e2 (reg_password ?r) = Some ''$2a$12$secretpw''"
    "insert_user ?e2 (db ?w) (reg_username ?r) ''$2a$12$secretpw'' (reg_email ?r) = Some ?d1"
    "select_user_id ?e2 ?d1 (reg_username ?r) = None \<or>
         (\<exists>uid. select_user_id ?e2 ?d1 (reg_username ?r) = Some uid \<and>
                insert_token ?e2 ?d1 uid (new_uuid ?e2) (conn_ip (client ?w)) = None)"
    by (simp_all add: eval_defs)
  from registration_without_auto_login[OF u l x1]
  have a: "sent (handleRegistration ?e1 ?m ?w) =
     [JObj [(''payload'',
             JObj [(''autoLogin'', JBool False),
                   (''message'', JStr ''Registration successful''),
                   (''success'', JBool True)]),
            (''type'', JStr ''register_success'')]]"
    "client (handleRegistration ?e1 ?m ?w) = new_Client ''10.0.0.1:5000'' ''10.0.0.1''"
    by (simp_all add: connect_def)
  from registration_without_auto_login[OF u l x2]
  have b: "map u_username (users (db (handleRegistration ?e2 ?m ?w))) = [''alice'']"
    "\<not> authenticated (client (handleRegistration ?e2 ?m ?w))"
    by (simp_all add: connect_def new_Client_def)
  from a b show ?thesis by simp
qed

lemma insert_token_users: "insert_token e d uid tok ip = Some d' \<Longrightarrow> users d' = users d"
  by (auto simp: insert_token_def split: if_splits)

lemma registration_token_users [simp]: "users (db (registration_token e r w)) = users (db w)"
  by (auto simp: registration_token_def Let_def split: option.splits dest: insert_token_users)

lemma registration_token_issued:
  "\<exists>cs. issued (registration_token e r w) = issued w @ cs \<and> SelectEmailExists \<notin> set cs"
  by (auto simp: registration_token_def Let_def split: option.splits)

lemma registration_insert_issued:
  "\<exists>cs. issued (registration_insert e r w) = issued w @ cs \<and> SelectEmailExists \<notin> set cs"
proof (cases "bcrypt_generate e (reg_password r)")
  case None
  then show ?thesis by (simp add: registration_insert_def)
next
  case (Some h)
  show ?thesis
  proof (cases "insert_user e (db w) (reg_username r) h (reg_email r)")
    case None
    with Some show ?thesis by (simp add: registration_insert_def Let_def)
  next
    case (Some d1)
    from registration_token_issued[of e r "(issue InsertUser w)\<lparr>db := d1\<rparr>"]
    obtain cs where "issued (registration_token e r ((issue InsertUser w)\<lparr>db := d1\<rparr>)) =
        issued ((issue InsertUser w)\<lparr>db := d1\<rparr>) @ cs" "SelectEmailExists \<notin> set cs"
      by blast
    with Some \<open>bcrypt_generate e (reg_password r) = Some h\<close> show ?thesis
      by (simp add: registration_insert_def Let_def)
  qed
qed

lemma registration_checks_issued:
  assumes "reg_email r = []"
  shows "\<exists>cs. issued (registration_checks e r w) = issued w @ cs \<and> SelectEmailExists \<notin> set cs"
proof -
  from registration_insert_issued[of e r "issue SelectUsernameExists w"]
  obtain cs where "issued (registration_insert e r (issue SelectUsernameExists w)) =
      issued (issue SelectUsernameExists w) @ cs" "SelectEmailExists \<notin> set cs"
    by blast
  with assms show ?thesis
    by (auto simp: registration_checks_def Let_def split: option.splits bool.splits)
qed

lemma handleRegistration_issued:
  assumes "unmarshal_registration (Payload msg) = (False, r)" and "reg_email r = []"
  shows "\<exists>cs. issued (handleRegistration e msg w) = issued w @ cs \<and> SelectEmailExists \<notin> set cs"
  using assms registration_checks_issued[OF assms(2), of e w]
  by (auto simp: handleRegistration_def)

lemma stringField_absent:
  "\<forall>kv\<in>set kvs. \<not> key_selects field (fst kv) \<Longrightarrow> stringField field kvs = ([], False)"
  by (simp add: stringField_def filter_False)

text \<open>
  A payload with no \<open>email\<close> member decodes to the empty email. For a register request
  whose email is empty, the statement that looks the email up is never issued; when the
  insert of the user succeeds, the new row holds the empty string in its email column
  (not \<open>NULL\<close>); and since that column is unique, the insert fails for every request
  without an email once one such row is stored.
\<close>

lemma registration_without_email:
  "((\<forall>kv\<in>set kvs. \<not> key_selects ''email'' (fst kv)) \<longrightarrow>
      reg_email (snd (unmarshal_registration (Some (JObj kvs)))) = []) \<and>
   (unmarshal_registration (Payload msg) = (False, r) \<and> reg_email r = [] \<longrightarrow>
      (\<exists>cs. issued (handleRegistration e msg w) = issued w @ cs \<and>
            SelectEmailExists \<notin> set cs) \<and>
      (\<forall>h d1. 3 \<le> length (reg_username r) \<and> 6 \<le> length (reg_password r) \<and>
              select_username_exists e (db w) (reg_username r) = Some False \<and>
              bcrypt_generate e (reg_password r) = Some h \<and>
              insert_user e (db w) (reg_username r) h [] = Some d1 \<longrightarrow>
         users d1 = users (db w) @
           [\<lparr>u_id = users_id_seq (db w) + 1, u_username = reg_username r,
             u_password_hash = h, u_email = Some [], u_created_at = clock e InsertUser,
             u_last_login = None\<rparr>] \<and>
         users (db (handleRegistration e msg w)) = users d1) \<and>
      (\<forall>h. list_ex (\<lambda>u. u_email u = Some []) (users (db w)) \<longrightarrow>
           insert_user e (db w) (reg_username r) h [] = None))"
proof (intro conjI impI)
  assume "\<forall>kv\<in>set kvs. \<not> key_selects ''email'' (fst kv)"
  then show "reg_email (snd (unmarshal_registration (Some (JObj kvs)))) = []"
    by (simp add: unmarshal_registration_def stringField_absent)
next
  assume a: "unmarshal_registration (Payload msg) = (False, r) \<and> reg_email r = []"
  then show "\<exists>cs. issued (handleRegistration e msg w) = issued w @ cs \<and>
            SelectEmailExists \<notin> set cs"
    using handleRegistration_issued by blast
next
  assume a: "unmarshal_registration (Payload msg) = (False, r) \<and> reg_email r = []"
  show "\<forall>h d1. 3 \<le> length (reg_username r) \<and> 6 \<le> length (reg_password r) \<and>
              select_username_exists e (db w) (reg_username r) = Some False \<and>
              bcrypt_generate e (reg_password r) = Some h \<and>
              insert_user e (db w) (reg_username r) h [] = Some d1 \<longrightarrow>
         users d1 = users (db w) @
           [\<lparr>u_id = users_id_seq (db w) + 1, u_username = reg_username r,
             u_password_hash = h, u_email = Some [], u_created_at = clock e InsertUser,
             u_last_login = None\<rparr>] \<and>
         users (db (handleRegistration e msg w)) = users d1"
  proof (intro allI impI, elim conjE)
    fix h d1
    assume b: "3 \<le> length (reg_username r)" "6 \<le> length (reg_password r)"
      "select_username_exists e (db w) (reg_username r) = Some False"
      "bcrypt_generate e (reg_password r) = Some h"
      "insert_user e (db w) (reg_username r) h [] = Some d1"
    have 1: "handleRegistration e msg w = registration_checks e r w"
      using a b by (intro handleRegistration_valid) auto
    have 2: "registration_checks e r w = registration_insert e r (issue SelectUsernameExists w)"
      using a b registration_checks_pass[of e w r] by simp
    have 3: "registration_insert e r (issue SelectUsernameExists w) =
               registration_token e r ((issue InsertUser (issue SelectUsernameExists w))\<lparr>db := d1\<rparr>)"
      using a b by (intro registration_insert_ok) auto
    have 4: "users d1 = users (db w) @
           [\<lparr>u_id = users_id_seq (db w) + 1, u_username = reg_username r,
             u_password_hash = h, u_email = Some [], u_created_at = clock e InsertUser,
             u_last_login = None\<rparr>]"
      using b(5) by (auto simp: insert_user_def split: if_splits)
    show "users d1 = users (db w) @
           [\<lparr>u_id = users_id_seq (db w) + 1, u_username = reg_username r,
             u_password_hash = h, u_email = Some [], u_created_at = clock e InsertUser,
             u_last_login = None\<rparr>] \<and>
         users (db (handleRegistration e msg w)) = users d1"
      unfolding 1 2 3 using 4 by simp
  qed
next
  show "\<forall>h. list_ex (\<lambda>u. u_email u = Some []) (users (db w)) \<longrightarrow>
           insert_user e (db w) (reg_username r) h [] = None"
    by (simp add: insert_user_def)
qed

text \<open>
  Claim C10 does not hold of the code for every request. The first registration without an
  email is stored with the empty string in its email column. A second one, by another
  user, passes the username check, skips the email check and issues the same insert with
  the empty string; the unique email column refuses it, the reply is the server error and
  no row is written.
\<close>

theorem second_registration_without_email_fails:
  "map u_email (users alice_db) = [Some []] \<and>
   sent (handlePacket env0
           (envelope ''register''
              (JObj [(''username'', JStr ''bobby''), (''password'', JStr ''hunter22'')]))
           (connect ''10.0.0.3:5000'' ''10.0.0.3'' alice_db)) =
     [error_envelope ''registration_error'' ''Registration failed due to a server error''] \<and>
   issued (handlePacket env0
           (envelope ''register''
              (JObj [(''username'', JStr ''bobby''), (''password'', JStr ''hunter22'')]))
           (connect ''10.0.0.3:5000'' ''10.0.0.3'' alice_db)) =
     [SelectUsernameExists, InsertUser] \<and>
   map u_username (users (db (handlePacket env0
           (envelope ''register''
              (JObj [(''username'', JStr ''bobby''), (''password'', JStr ''hunter22'')]))
           (connect ''10.0.0.3:5000'' ''10.0.0.3'' alice_db)))) = [''alice''] \<and>
   \<not> authenticated (client (handlePacket env0
           (envelope ''register''
              (JObj [(''username'', JStr ''bobby''), (''password'', JStr ''hunter22'')]))
           (connect ''10.0.0.3:5000'' ''10.0.0.3'' alice_db)))"
  by (simp add: alice_db_eq) (simp add: eval_defs)

theorem second_registration_without_email_fails_witness:
  "sent (handlePacket env0
           (envelope ''register''
              (JObj [(''username'', JStr ''bobby''), (''password'', JStr ''hunter22'')]))
           (connect ''10.0.0.3:5000'' ''10.0.0.3'' alice_db)) \<noteq>
     [register_success_envelope True ''bobby'' alice_token]"
  using second_registration_without_email_fails
  by (simp add: error_envelope_def register_success_envelope_def)

section \<open>Tokens\<close>

lemma token_join_unique:
  assumes "filter (\<lambda>t. t_token t = tok) (auth_tokens d) = [t]"
  shows "token_join now d tok =
           (if now < t_expires_at t
            then map (\<lambda>u. (t, u)) (filter (\<lambda>u. t_user_id t = Some (u_id u)) (users d))
            else [])"
proof -
  have "filter (\<lambda>t. t_token t = tok \<and> now < t_expires_at t) (auth_tokens d) =
        filter (\<lambda>t. now < t_expires_at t) (filter (\<lambda>t. t_token t = tok) (auth_tokens d))"
    by (simp add: conj_commute)
  then show ?thesis using assms by (simp add: token_join_def)
qed

lemma validateToken_valid_iff:
  assumes "filter (\<lambda>t. t_token t = tok) (auth_tokens (db w)) = [t]"
    and "t_user_id t = Some uid" and "list_ex (\<lambda>u. u_id u = uid) (users (db w))"
    and "\<not> faults e SelectToken"
  shows "fst (snd (fst (validateToken e tok ip w))) \<longleftrightarrow> clock e SelectToken < t_expires_at t"
    and "\<not> clock e SelectToken < t_expires_at t \<Longrightarrow>
           select_token e (db w) tok = Inl ErrNoRows \<and>
           fst (fst (validateToken e tok ip w)) = []"
proof -
  from assms(2,3) have ne: "filter (\<lambda>u. t_user_id t = Some (u_id u)) (users (db w)) \<noteq> []"
    by (auto simp: list_ex_iff filter_empty_conv)
  show "fst (snd (fst (validateToken e tok ip w))) \<longleftrightarrow> clock e SelectToken < t_expires_at t"
  proof (cases "clock e SelectToken < t_expires_at t")
    case True
    with ne obtain u us where
      "token_join (clock e SelectToken) (db w) tok = (t, u) # us"
      by (cases "filter (\<lambda>u. t_user_id t = Some (u_id u)) (users (db w))")
         (auto simp: token_join_unique[OF assms(1)])
    with assms(4) True show ?thesis
      by (simp add: validateToken_def select_token_def Let_def split: option.splits)
  next
    case False
    with assms(4) show ?thesis
      by (simp add: validateToken_def select_token_def token_join_unique[OF assms(1)])
  qed
  show "\<not> clock e SelectToken < t_expires_at t \<Longrightarrow>
           select_token e (db w) tok = Inl ErrNoRows \<and>
           fst (fst (validateToken e tok ip w)) = []"
    using assms(4)
    by (simp add: validateToken_def select_token_def token_join_unique[OF assms(1)])
qed

lemma insert_token_row:
  assumes "insert_token e1 d uid tok ip1 = Some d'"
  shows "filter (\<lambda>t. t_token t = tok) (auth_tokens d') =
           [\<lparr>t_id = auth_tokens_id_seq d + 1, t_user_id = Some uid, t_token = tok,
             t_ip_address = Some ip1, t_created_at = clock e1 InsertToken,
             t_expires_at = clock e1 InsertToken + seven_days,
             t_last_used_at = None, t_is_revoked = False\<rparr>]"
    and "list_ex (\<lambda>u. u_id u = uid) (users d')"
  using assms
  by (auto simp: insert_token_def list_ex_iff filter_empty_conv split: if_splits)

text \<open>
  Claim C7. Take a token that is stored once, belongs to a user and is not revoked, and a
  lookup that the store executes. \<open>validateToken\<close> answers valid if and only if the clock
  of the lookup is strictly before the expiry of the token; from the expiry on the lookup
  finds no row and the answer is not valid, with no username. The insert that creates a
  token sets its expiry to its creation time plus seven days, so a token just created is
  valid at once and as long as the clock is less than seven days past its creation.
\<close>

theorem token_valid_iff_before_expiry:
  "(filter (\<lambda>t. t_token t = tok) (auth_tokens (db w)) = [t] \<and> t_user_id t = Some uid \<and>
    list_ex (\<lambda>u. u_id u = uid) (users (db w)) \<and> \<not> t_is_revoked t \<and>
    \<not> faults e SelectToken \<longrightarrow>
      (fst (snd (fst (validateToken e tok ip w))) \<longleftrightarrow> clock e SelectToken < t_expires_at t) \<and>
      (\<not> clock e SelectToken < t_expires_at t \<longrightarrow>
         select_token e (db w) tok = Inl ErrNoRows \<and>
         fst (fst (validateToken e tok ip w)) = [])) \<and>
   (insert_token e1 d uid' tok' ip1 = Some d' \<longrightarrow>
      filter (\<lambda>t. t_token t = tok') (auth_tokens d') =
        [\<lparr>t_id = auth_tokens_id_seq d + 1, t_user_id = Some uid', t_token = tok',
          t_ip_address = Some ip1, t_created_at = clock e1 InsertToken,
          t_expires_at = clock e1 InsertToken + seven_days,
          t_last_used_at = None, t_is_revoked = False\<rparr>] \<and>
      (\<not> faults e SelectToken \<longrightarrow>
         (fst (snd (fst (validateToken e tok' ip (w\<lparr>db := d'\<rparr>)))) \<longleftrightarrow>
            clock e SelectToken < clock e1 InsertToken + seven_days)))"
proof (intro conjI impI)
  assume a: "filter (\<lambda>t. t_token t = tok) (auth_tokens (db w)) = [t] \<and> t_user_id t = Some uid \<and>
    list_ex (\<lambda>u. u_id u = uid) (users (db w)) \<and> \<not> t_is_revoked t \<and> \<not> faults e SelectToken"
  then show "fst (snd (fst (validateToken e tok ip w))) \<longleftrightarrow> clock e SelectToken < t_expires_at t"
    using validateToken_valid_iff(1)[of tok w t uid e ip] by blast
  {
    assume "\<not> clock e SelectToken < t_expires_at t"
    with a show "select_token e (db w) tok = Inl ErrNoRows"
      and "fst (fst (validateToken e tok ip w)) = []"
      using validateToken_valid_iff(2)[of tok w t uid e ip] by blast+
  }
next
  assume b: "insert_token e1 d uid' tok' ip1 = Some d'"
  from insert_token_row(1)[OF b]
  show "filter (\<lambda>t. t_token t = tok') (auth_tokens d') =
        [\<lparr>t_id = auth_tokens_id_seq d + 1, t_user_id = Some uid', t_token = tok',
          t_ip_address = Some ip1, t_created_at = clock e1 InsertToken,
          t_expires_at = clock e1 InsertToken + seven_days,
          t_last_used_at = None, t_is_revoked = False\<rparr>]" .
  {
    assume c: "\<not> faults e SelectToken"
    show "fst (snd (fst (validateToken e tok' ip (w\<lparr>db := d'\<rparr>)))) \<longleftrightarrow>
            clock e SelectToken < clock e1 InsertToken + seven_days"
      using validateToken_valid_iff(1)[of tok' "w\<lparr>db := d'\<rparr>" _ uid' e ip]
        insert_token_row[OF b] c
      by simp
  }
qed

theorem token_valid_iff_before_expiry_witness:
  "fst (snd (fst (validateToken env0 alice_token ''10.0.0.1''
                    (connect ''10.0.0.1:7000'' ''10.0.0.1'' alice_db)))) \<and>
   fst (snd (fst (validateToken (env0\<lparr>clock := (\<lambda>c. 605799)\<rparr>) alice_token ''10.0.0.1''
                    (connect ''10.0.0.1:7000'' ''10.0.0.1'' alice_db)))) \<and>
   \<not> fst (snd (fst (validateToken (env0\<lparr>clock := (\<lambda>c. 605800)\<rparr>) alice_token ''10.0.0.1''
                    (connect ''10.0.0.1:7000'' ''10.0.0.1'' alice_db)))) \<and>
   select_token (env0\<lparr>clock := (\<lambda>c. 605800)\<rparr>) alice_db alice_token = Inl ErrNoRows \<and>
   insert_token env0 (alice_db\<lparr>auth_tokens := [], auth_tokens_id_seq := 0\<rparr>) 1 alice_token
     ''10.0.0.1'' = Some alice_db \<and>
   map t_expires_at (auth_tokens alice_db) = [1000 + seven_days]"
proof -
  let ?w = "connect ''10.0.0.1:7000'' ''10.0.0.1'' alice_db"
  let ?t = "\<lparr>t_id = 1, t_user_id = Some 1, t_token = alice_token,
             t_ip_address = Some ''10.0.0.1'', t_created_at = 1000,
             t_expires_at = 605800, t_last_used_at = None, t_is_revoked = False\<rparr>"
  let ?late = "env0\<lparr>clock := (\<lambda>c. 605800)\<rparr>"
  let ?last = "env0\<lparr>clock := (\<lambda>c. 605799)\<rparr>"
  let ?d = "alice_db\<lparr>auth_tokens := [], auth_tokens_id_seq := 0\<rparr>"
  have h: "filter (\<lambda>t. t_token t = alice_token) (auth_tokens (db ?w)) = [?t] \<and>
           t_user_id ?t = Some 1 \<and> list_ex (\<lambda>u. u_id u = 1) (users (db ?w)) \<and>
           \<not> t_is_revoked ?t"
    by (simp add: connect_def alice_db_eq)
  have f: "\<not> faults env0 SelectToken" "\<not> faults ?late SelectToken" "\<not> faults ?last SelectToken"
    by (simp_all add: env0_def)
  have i: "insert_token env0 ?d 1 alice_token ''10.0.0.1'' = Some alice_db"
    by (simp add: alice_db_eq insert_token_def env0_def seven_days_def alice_token_def)
  from token_valid_iff_before_expiry[of alice_token ?w ?t 1 env0 "''10.0.0.1''" env0 ?d 1 alice_token "''10.0.0.1''" alice_db] h f i
  have a: "fst (snd (fst (validateToken env0 alice_token ''10.0.0.1'' ?w)))"
    "filter (\<lambda>t. t_token t = alice_token) (auth_tokens alice_db) =
        [\<lparr>t_id = auth_tokens_id_seq ?d + 1, t_user_id = Some 1, t_token = alice_token,
          t_ip_address = Some ''10.0.0.1'', t_created_at = clock env0 InsertToken,
          t_expires_at = clock env0 InsertToken + seven_days,
          t_last_used_at = None, t_is_revoked = False\<rparr>]"
    by (simp_all add: env0_def)
  from a(2) have a2: "map t_expires_at (auth_tokens alice_db) = [1000 + seven_days]"
    by (simp add: alice_db_eq env0_def seven_days_def)
  from token_valid_iff_before_expiry[of alice_token ?w ?t 1 ?last "''10.0.0.1''" env0 ?d 1 alice_token "''10.0.0.1''" alice_db] h f
  have b: "fst (snd (fst (validateToken ?last alice_token ''10.0.0.1'' ?w)))"
    by (simp add: env0_def)
  from token_valid_iff_before_expiry[of alice_token ?w ?t 1 ?late "''10.0.0.1''" env0 ?d 1 alice_token "''10.0.0.1''" alice_db] h f
  have c: "\<not> fst (snd (fst (validateToken ?late alice_token ''10.0.0.1'' ?w)))"
    "select_token ?late alice_db alice_token = Inl ErrNoRows"
    by (simp_all add: env0_def connect_def)
  from a(1) a2 b c i show ?thesis by simp
qed

lemma update_token_rows:
  assumes "update_token e d ip tid = Some d'"
  shows "auth_tokens d' =
           map (\<lambda>t. if t_id t = tid
                     then t\<lparr>t_last_used_at := Some (clock e UpdateToken), t_ip_address := Some ip\<rparr>
                     else t) (auth_tokens d)"
  using assms by (auto simp: update_token_def split: if_splits)

text \<open>
  What \<open>validateToken\<close> does when it is given a token that it finds (stored once, not
  expired, with its user), that has a non-empty IP on record, from a caller with another
  IP. The result is success with the username of the owner; the warning with both
  addresses is logged; the update of the row is issued after the lookup, and with a store
  that executes it the row holds the caller's IP and the clock of the update as its last
  use. Were the update to fail, the store is unchanged and the result is success all the
  same.
\<close>

lemma validateToken_new_ip:
  assumes "\<not> faults e SelectToken"
    and "filter (\<lambda>t. t_token t = tok) (auth_tokens (db w)) = [t]"
    and "clock e SelectToken < t_expires_at t"
    and "filter (\<lambda>u. t_user_id t = Some (u_id u)) (users (db w)) = [u]"
    and "t_ip_address t = Some stored" and "stored \<noteq> []" and "stored \<noteq> ip"
  shows "fst (validateToken e tok ip w) = (u_username u, True, None) \<and>
         LogPrintf ''Warning: Token used from new IP. Original: %s, Current: %s'' [stored, ip]
           \<in> set (logged (snd (validateToken e tok ip w))) \<and>
         issued (snd (validateToken e tok ip w)) = issued w @ [SelectToken, UpdateToken] \<and>
         (\<forall>d'. update_token e (db w) ip (t_id t) = Some d' \<longrightarrow>
               db (snd (validateToken e tok ip w)) = d' \<and>
               t\<lparr>t_last_used_at := Some (clock e UpdateToken), t_ip_address := Some ip\<rparr>
                 \<in> set (auth_tokens d')) \<and>
         (update_token e (db w) ip (t_id t) = None \<longrightarrow>
            db (snd (validateToken e tok ip w)) = db w)"
proof -
  have j: "token_join (clock e SelectToken) (db w) tok = [(t, u)]"
    using assms(3,4) by (simp add: token_join_unique[OF assms(2)])
  have s: "select_token e (db w) tok = Inr (t_id t, u_username u, Some stored)"
    using assms(1,5) j by (simp add: select_token_def)
  have t_in: "t \<in> set (auth_tokens (db w))"
  proof -
    have "t \<in> set (filter (\<lambda>t. t_token t = tok) (auth_tokens (db w)))"
      using assms(2) by simp
    then show ?thesis by simp
  qed
  show ?thesis
  proof (cases "update_token e (db w) ip (t_id t)")
    case None
    with s assms(6,7) show ?thesis
      by (simp add: validateToken_def Let_def)
  next
    case (Some d')
    from update_token_rows[OF Some] t_in
    have "t\<lparr>t_last_used_at := Some (clock e UpdateToken), t_ip_address := Some ip\<rparr>
            \<in> set (auth_tokens d')"
      by force
    with Some s assms(6,7) show ?thesis
      by (simp add: validateToken_def Let_def)
  qed
qed

section \<open>Frames\<close>

text \<open>
  A frame that is not JSON is logged and nothing else happens; an envelope that decodes
  and whose type is none of \<open>login\<close>, \<open>register\<close>, \<open>token_auth\<close> changes nothing. What
  \<open>handlePacket\<close> does with a \<open>token_auth\<close> envelope does not depend on its payload.
\<close>

lemma handlePacket_not_json:
  "handlePacket e (NotJSON txt) w =
     logs (LogFields ''Received String as Message'' [(''client_id'', client_id (client w))]) w"
  by (simp add: handlePacket_def unmarshal_Message_def zero_Message_def)

lemma handlePacket_other_type:
  assumes "unmarshal_Message f = (False, m)"
    and "Type m \<noteq> ''login''" and "Type m \<noteq> ''register''" and "Type m \<noteq> ''token_auth''"
  shows "handlePacket e f w = w"
  using assms by (simp add: handlePacket_def)

lemma handlePacket_token_auth_ignores_payload:
  "handlePacket e (envelope ''token_auth'' p) w = handlePacket e (envelope ''token_auth'' p') w"
  by (simp add: handlePacket_def json_defs)

text \<open>
  Claim C1 does not hold of \<open>handlePacket\<close>. The spec's example: alice registers on a
  first connection and receives her token; a second connection sends \<open>token_auth\<close> with
  that token. \<open>handlePacket\<close> never decodes the payload, looks the empty token up, answers
  \<open>token_error\<close> and leaves the session unauthenticated. The \<open>token_auth\<close> case of
  \<open>handleAuthentication\<close>, which \<open>handlePacket\<close> does not call, decodes the payload and
  answers \<open>auth_success\<close> with alice and the same token.
\<close>

theorem token_auth_drops_the_token:
  "sent (handlePacket env0 register_alice (connect ''10.0.0.1:5000'' ''10.0.0.1'' empty_db)) =
     [register_success_envelope True ''alice'' alice_token] \<and>
   sent (handlePacket env0 (envelope ''token_auth'' (JObj [(''token'', JStr alice_token)]))
           (connect ''10.0.0.2:6000'' ''10.0.0.2'' alice_db)) =
     [error_envelope ''token_error'' ''Invalid or expired token''] \<and>
   \<not> authenticated (client
       (handlePacket env0 (envelope ''token_auth'' (JObj [(''token'', JStr alice_token)]))
           (connect ''10.0.0.2:6000'' ''10.0.0.2'' alice_db))) \<and>
   sent (handleAuthentication env0
           \<lparr>Type = ''token_auth'', Payload = Some (JObj [(''token'', JStr alice_token)])\<rparr>
           (connect ''10.0.0.2:6000'' ''10.0.0.2'' alice_db)) =
     [auth_success_envelope ''alice'' alice_token]"
  by (simp add: alice_registered alice_db_eq) (simp add: eval_defs)

theorem token_auth_drops_the_token_witness:
  "sent (handlePacket env0 (envelope ''token_auth'' (JObj [(''token'', JStr alice_token)]))
           (connect ''10.0.0.2:6000'' ''10.0.0.2'' alice_db)) \<noteq>
     [auth_success_envelope ''alice'' alice_token]"
  using token_auth_drops_the_token
  by (simp add: error_envelope_def auth_success_envelope_def)

text \<open>
  Claim C3 does not hold of \<open>handlePacket\<close>. Alice's token has the IP 10.0.0.1 on record
  and is presented, not expired, in a \<open>token_auth\<close> envelope on a connection from 10.0.0.2.
  \<open>handlePacket\<close> passes the empty token to \<open>validateToken\<close>, not the one presented: the
  request is rejected with \<open>token_error\<close>, no warning is logged, and the row keeps its IP
  and has no last use. Given the token itself on the same store, \<open>validateToken\<close> does what
  the claim says: it logs the warning, writes the caller's IP and the time of use into the
  row, and returns success with alice.
\<close>

theorem token_auth_from_new_ip_rejected:
  "sent (handlePacket env0 (envelope ''token_auth'' (JObj [(''token'', JStr alice_token)]))
           (connect ''10.0.0.2:6000'' ''10.0.0.2'' alice_db)) =
     [error_envelope ''token_error'' ''Invalid or expired token''] \<and>
   \<not> authenticated (client
       (handlePacket env0 (envelope ''token_auth'' (JObj [(''token'', JStr alice_token)]))
           (connect ''10.0.0.2:6000'' ''10.0.0.2'' alice_db))) \<and>
   logged (handlePacket env0 (envelope ''token_auth'' (JObj [(''token'', JStr alice_token)]))
           (connect ''10.0.0.2:6000'' ''10.0.0.2'' alice_db)) = [] \<and>
   issued (handlePacket env0 (envelope ''token_auth'' (JObj [(''token'', JStr alice_token)]))
           (connect ''10.0.0.2:6000'' ''10.0.0.2'' alice_db)) = [SelectToken] \<and>
   db (handlePacket env0 (envelope ''token_auth'' (JObj [(''token'', JStr alice_token)]))
           (connect ''10.0.0.2:6000'' ''10.0.0.2'' alice_db)) = alice_db \<and>
   map t_ip_address (auth_tokens alice_db) = [Some ''10.0.0.1''] \<and>
   map t_last_used_at (auth_tokens alice_db) = [None] \<and>
   fst (validateToken env0 alice_token ''10.0.0.2''
          (connect ''10.0.0.2:6000'' ''10.0.0.2'' alice_db)) = (''alice'', True, None) \<and>
   logged (snd (validateToken env0 alice_token ''10.0.0.2''
          (connect ''10.0.0.2:6000'' ''10.0.0.2'' alice_db))) =
     [LogPrintf ''Warning: Token used from new IP. Original: %s, Current: %s''
        [''10.0.0.1'', ''10.0.0.2'']] \<and>
   map t_ip_address (auth_tokens (db (snd (validateToken env0 alice_token ''10.0.0.2''
          (connect ''10.0.0.2:6000'' ''10.0.0.2'' alice_db))))) = [Some ''10.0.0.2''] \<and>
   map t_last_used_at (auth_tokens (db (snd (validateToken env0 alice_token ''10.0.0.2''
          (connect ''10.0.0.2:6000'' ''10.0.0.2'' alice_db))))) = [Some 1000]"
  by (simp add: alice_db_eq) (simp add: eval_defs)

theorem token_auth_from_new_ip_rejected_witness:
  "map t_ip_address
     (auth_tokens (db (handlePacket env0
        (envelope ''token_auth'' (JObj [(''token'', JStr alice_token)]))
        (connect ''10.0.0.2:6000'' ''10.0.0.2'' alice_db)))) = [Some ''10.0.0.1'']"
  using token_auth_from_new_ip_rejected by simp

text \<open>
  Claim C8 does not hold of \<open>handlePacket\<close> for every frame. The frame
  \<^verbatim>\<open>{"type":"register","payload":{"username":"ab","password":"secret1"},"type":1}\<close>
  is well-formed JSON whose second \<open>type\<close> member is a number: \<open>json.Unmarshal\<close> returns
  an error and leaves \<open>register\<close> in \<open>message.Type\<close>. \<open>handlePacket\<close> logs the error and
  does not return, so the request is dispatched and answered.
\<close>

theorem failed_parse_still_dispatched:
  "fst (unmarshal_Message
         (JSON (JObj [(''type'', JStr ''register''),
                      (''payload'', JObj [(''username'', JStr ''ab''),
                                          (''password'', JStr ''secret1'')]),
                      (''type'', JNum ''1'')]))) \<and>
   sent (handlePacket env0
          (JSON (JObj [(''type'', JStr ''register''),
                       (''payload'', JObj [(''username'', JStr ''ab''),
                                           (''password'', JStr ''secret1'')]),
                       (''type'', JNum ''1'')]))
          (connect ''10.0.0.1:5000'' ''10.0.0.1'' empty_db)) =
     [error_envelope ''registration_error'' ''Username must be at least 3 characters'']"
  by (simp add: eval_defs)

theorem failed_parse_still_dispatched_witness:
  "sent (handlePacket env0
          (JSON (JObj [(''type'', JStr ''register''),
                       (''payload'', JObj [(''username'', JStr ''ab''),
                                           (''password'', JStr ''secret1'')]),
                       (''type'', JNum ''1'')]))
          (connect ''10.0.0.1:5000'' ''10.0.0.1'' empty_db)) \<noteq> []"
  using failed_parse_still_dispatched by simp

end
